theory Spec2Isabelle
  imports Main "HOL-Library.AList" "HOL-Library.Word" "HOL-Library.Char_ord" "HOL-Library.List_Lexorder" "HOL-Library.Multiset"
begin

section \<open>Go values used by the scheduler's report repository\<close>

text \<open>
  A Go map is an association list read with \<^const>\<open>map_of\<close> and written with
  \<^const>\<open>AList.update\<close>; \<open>maps.Clone\<close> is the identity on such a value.  The order of
  the list is the order in which one run of the program ranges over the map.
\<close>

type_synonym ('k, 'v) gomap = "('k \<times> 'v) list"

type_synonym int32 = "32 word"

definition newline :: string where
  "newline = [CHR 0x0A]"

definition tabchar :: string where
  "tabchar = [CHR 0x09]"

subsection \<open>Resources by priority\<close>

type_synonym ResourceList = "(string, int) gomap"

type_synonym QuantityByPriorityAndResourceType = "(int32, ResourceList) gomap"

text \<open>
  Modelled from the spec: package \<open>schedulerobjects\<close> (the resource types and their
  \<open>IsZero\<close>) is not among the sources.  Section 4.A lists \<open>isZero\<close> among the
  operations of a resource vector: it holds when every quantity is zero.
\<close>

definition ResourceList_IsZero :: "ResourceList \<Rightarrow> bool" where
  "ResourceList_IsZero rl = list_all (\<lambda>(name, q). q = 0) rl"

definition IsZero :: "QuantityByPriorityAndResourceType \<Rightarrow> bool" where
  "IsZero a = list_all (\<lambda>(p, rl). ResourceList_IsZero rl) a"

subsection \<open>Scheduling contexts\<close>

text \<open>
  The fields of the three contexts that \<open>reports.go\<close> reads.  The back pointer from a
  queue context to its scheduling context is read through
  \<open>GetSchedulingContextFromQueueSchedulingContext\<close>, a function of the environment below.
\<close>

record JobSchedulingContext =
  jctx_ExecutorId :: string
  jctx_JobId :: string

record QueueSchedulingContext =
  qctx_ExecutorId :: string
  qctx_Queue :: string
  qctx_Created :: int
  qctx_ScheduledResourcesByPriority :: QuantityByPriorityAndResourceType
  qctx_EvictedResourcesByPriority :: QuantityByPriorityAndResourceType
  SuccessfulJobSchedulingContexts :: "(string, JobSchedulingContext) gomap"
  UnsuccessfulJobSchedulingContexts :: "(string, JobSchedulingContext) gomap"
  EvictedJobsById :: "(string, bool) gomap"

record SchedulingContext =
  sctx_ExecutorId :: string
  ScheduledResourcesByPriority :: QuantityByPriorityAndResourceType
  EvictedResourcesByPriority :: QuantityByPriorityAndResourceType
  QueueSchedulingContexts :: "(string, QueueSchedulingContext) gomap"

type_synonym SchedulingContextByExecutor = "(string, SchedulingContext) gomap"
type_synonym QueueSchedulingContextByExecutor = "(string, QueueSchedulingContext) gomap"
type_synonym JobSchedulingContextByExecutor = "(string, JobSchedulingContext) gomap"

datatype error = ErrInvalidArgument (err_Name: string) (err_Value: string) (err_Message: string)
  | ErrLruSize

subsection \<open>The bounded cache of job contexts\<close>

text \<open>
  \<open>lru.Cache\<close> of hashicorp/golang-lru: at most \<open>lru_size\<close> entries, the most recently
  used first.  \<open>Add\<close> of a new key pushes it to the front and then removes the oldest
  entry when the size is exceeded; \<open>Add\<close> of a stored key replaces the value and moves the
  entry to the front; \<open>Get\<close> moves the entry it finds to the front; \<open>Peek\<close> reads without
  moving.  Every operation runs under the cache's own lock.
\<close>

record ('k, 'v) lru =
  lru_size :: nat
  lru_items :: "('k \<times> 'v) list"

definition lru_New :: "int \<Rightarrow> error + ('k, 'v) lru" where
  "lru_New n = (if n \<le> 0 then Inl ErrLruSize else Inr \<lparr>lru_size = nat n, lru_items = []\<rparr>)"

definition lru_Peek :: "'k \<Rightarrow> ('k, 'v) lru \<Rightarrow> 'v option" where
  "lru_Peek k c = map_of (lru_items c) k"

definition lru_Add :: "'k \<Rightarrow> 'v \<Rightarrow> ('k, 'v) lru \<Rightarrow> ('k, 'v) lru" where
  "lru_Add k v c =
     (case map_of (lru_items c) k of
        Some old \<Rightarrow> c\<lparr>lru_items := (k, v) # AList.delete k (lru_items c)\<rparr>
      | None \<Rightarrow>
          (let pushed = (k, v) # lru_items c
           in c\<lparr>lru_items := (if length pushed > lru_size c then butlast pushed else pushed)\<rparr>))"

definition lru_PeekOrAdd :: "'k \<Rightarrow> 'v \<Rightarrow> ('k, 'v) lru \<Rightarrow> 'v option \<times> ('k, 'v) lru" where
  "lru_PeekOrAdd k v c =
     (case lru_Peek k c of
        Some previous \<Rightarrow> (Some previous, c)
      | None \<Rightarrow> (None, lru_Add k v c))"

definition lru_Get :: "'k \<Rightarrow> ('k, 'v) lru \<Rightarrow> 'v option \<times> ('k, 'v) lru" where
  "lru_Get k c =
     (case map_of (lru_items c) k of
        Some v \<Rightarrow> (Some v, c\<lparr>lru_items := (k, v) # AList.delete k (lru_items c)\<rparr>)
      | None \<Rightarrow> (None, c))"

text \<open>
  The value of a cache entry is a Go map, a reference: writing into the map
  returned by \<open>Peek\<close> changes the entry where it stands, without moving it.
\<close>

definition lru_write_in_place :: "'k \<Rightarrow> 'v \<Rightarrow> ('k, 'v) lru \<Rightarrow> ('k, 'v) lru" where
  "lru_write_in_place k v c = c\<lparr>lru_items := map (\<lambda>(k', v'). if k' = k then (k', v) else (k', v')) (lru_items c)\<rparr>"

subsection \<open>The repository\<close>

record SchedulingContextRepository =
  mostRecentSchedulingContextByExecutorP :: SchedulingContextByExecutor
  mostRecentSuccessfulSchedulingContextByExecutorP :: SchedulingContextByExecutor
  mostRecentPreemptingSchedulingContextByExecutorP :: SchedulingContextByExecutor
  mostRecentQueueSchedulingContextByExecutorByQueueP :: "(string, QueueSchedulingContextByExecutor) gomap"
  mostRecentSuccessfulQueueSchedulingContextByExecutorByQueueP :: "(string, QueueSchedulingContextByExecutor) gomap"
  mostRecentPreemptingQueueSchedulingContextByExecutorByQueueP :: "(string, QueueSchedulingContextByExecutor) gomap"
  mostRecentJobSchedulingContextByExecutorByJobId :: "(string, JobSchedulingContextByExecutor) lru"
  executorIds :: "(string, bool) gomap"
  sortedExecutorIdsP :: "string list"

text \<open>
  \<open>lru.New(int(maxJobSchedulingContextsPerExecutor))\<close>: the unsigned argument is read
  as a signed integer of the same width (64 bits), and a size that is not positive is an
  error.
\<close>

definition NewSchedulingContextRepository :: "64 word \<Rightarrow> error + SchedulingContextRepository" where
  "NewSchedulingContextRepository maxJobSchedulingContextsPerExecutor =
     (case lru_New (sint maxJobSchedulingContextsPerExecutor) of
        Inl err \<Rightarrow> Inl err
      | Inr jobSchedulingContextByExecutorByJobId \<Rightarrow>
          Inr \<lparr>mostRecentSchedulingContextByExecutorP = [],
               mostRecentSuccessfulSchedulingContextByExecutorP = [],
               mostRecentPreemptingSchedulingContextByExecutorP = [],
               mostRecentQueueSchedulingContextByExecutorByQueueP = [],
               mostRecentSuccessfulQueueSchedulingContextByExecutorByQueueP = [],
               mostRecentPreemptingQueueSchedulingContextByExecutorByQueueP = [],
               mostRecentJobSchedulingContextByExecutorByJobId = jobSchedulingContextByExecutorByJobId,
               executorIds = [],
               sortedExecutorIdsP = []\<rparr>)"

subsection \<open>What the repository calls and the sources do not hold\<close>

text \<open>
  The library functions and the methods of package \<open>schedulercontext\<close> that
  \<open>reports.go\<close> calls are parameters of the model:
  \<^item> \<open>TrimSpace\<close> is \<open>strings.TrimSpace\<close>;
  \<^item> \<open>ulid_Parse\<close> holds when \<open>ulid.Parse\<close> returns no error;
  \<^item> \<open>tabwriter\<close> maps the text written to a \<open>tabwriter.Writer\<close> to the text it
    has emitted after \<open>Flush\<close>;
  \<^item> \<open>indent_String\<close> is \<open>indent.String\<close>;
  \<^item> \<open>sctx_ReportString\<close>, \<open>qctx_ReportString\<close> and \<open>jctx_String\<close> print a context;
  \<^item> \<open>GetSchedulingContextFromQueueSchedulingContext\<close> follows the back pointer of a
    queue context, which may be nil;
  \<^item> \<open>range_jobs\<close> and \<open>range_queues\<close> give the order in which this run ranges
    over a map the repository has built itself (Go leaves the order open).
\<close>

record env =
  TrimSpace :: "string \<Rightarrow> string"
  ulid_Parse :: "string \<Rightarrow> bool"
  tabwriter :: "string \<Rightarrow> string"
  indent_String :: "string \<Rightarrow> string \<Rightarrow> string"
  sctx_ReportString :: "SchedulingContext \<Rightarrow> int32 \<Rightarrow> string"
  qctx_ReportString :: "QueueSchedulingContext \<Rightarrow> int32 \<Rightarrow> string"
  jctx_String :: "JobSchedulingContext \<Rightarrow> string"
  GetSchedulingContextFromQueueSchedulingContext :: "QueueSchedulingContext \<Rightarrow> SchedulingContext option"
  range_jobs :: "(string, JobSchedulingContext) gomap \<Rightarrow> (string \<times> JobSchedulingContext) list"
  range_queues :: "(string, QueueSchedulingContext) gomap \<Rightarrow> (string \<times> QueueSchedulingContext) list"

text \<open>
  Modelled from the spec: package \<open>internal/common/maps\<close> is not among the sources.
  As its use in \<open>reports.go\<close> requires, \<open>MapValues\<close> keeps the keys of a map and applies
  the function to every value.
\<close>

definition MapValues :: "('k, 'a) gomap \<Rightarrow> ('a \<Rightarrow> 'b) \<Rightarrow> ('k, 'b) gomap" where
  "MapValues m f = map (\<lambda>(k, v). (k, f v)) m"

section \<open>Adding a scheduling context\<close>

definition extractQueueAndJobContexts ::
  "SchedulingContext \<Rightarrow> (string, QueueSchedulingContext) gomap \<times> (string, JobSchedulingContext) gomap" where
  "extractQueueAndJobContexts sctx =
     fold (\<lambda>(queue, qctx) (queueSchedulingContextByQueue, jobSchedulingContextByJobId).
             (AList.update queue qctx queueSchedulingContextByQueue,
              fold (\<lambda>(jobId, jctx). AList.update jobId jctx) (UnsuccessfulJobSchedulingContexts qctx)
                (fold (\<lambda>(jobId, jctx). AList.update jobId jctx) (SuccessfulJobSchedulingContexts qctx)
                   jobSchedulingContextByJobId)))
          (QueueSchedulingContexts sctx) ([], [])"

definition addJobSchedulingContext ::
  "SchedulingContextRepository \<Rightarrow> JobSchedulingContext \<Rightarrow> error option \<times> SchedulingContextRepository" where
  "addJobSchedulingContext repo jctx =
     (if jctx_ExecutorId jctx = [] then
        (Some (ErrInvalidArgument ''ExecutorId'' [] ''received empty executorId''), repo)
      else if jctx_JobId jctx = [] then
        (Some (ErrInvalidArgument ''JobId'' [] ''received empty jobId''), repo)
      else
        (case lru_PeekOrAdd (jctx_JobId jctx) [(jctx_ExecutorId jctx, jctx)]
                (mostRecentJobSchedulingContextByExecutorByJobId repo) of
           (Some previous, cache) \<Rightarrow>
             (let jobSchedulingContextByExecutor = AList.update (jctx_ExecutorId jctx) jctx previous
              in (None, repo\<lparr>mostRecentJobSchedulingContextByExecutorByJobId :=
                    lru_Add (jctx_JobId jctx) jobSchedulingContextByExecutor
                      (lru_write_in_place (jctx_JobId jctx) jobSchedulingContextByExecutor cache)\<rparr>))
         | (None, cache) \<Rightarrow>
             (None, repo\<lparr>mostRecentJobSchedulingContextByExecutorByJobId := cache\<rparr>)))"

text \<open>The loop of \<open>AddSchedulingContext\<close> over the job contexts: it returns at the first error.\<close>

fun addJobSchedulingContexts ::
  "SchedulingContextRepository \<Rightarrow> JobSchedulingContext list \<Rightarrow> error option \<times> SchedulingContextRepository" where
  "addJobSchedulingContexts repo [] = (None, repo)"
| "addJobSchedulingContexts repo (jctx # jctxs) =
     (case addJobSchedulingContext repo jctx of
        (Some err, repo') \<Rightarrow> (Some err, repo')
      | (None, repo') \<Rightarrow> addJobSchedulingContexts repo' jctxs)"

text \<open>
  The three branches of \<open>addQueueSchedulingContexts\<close> that store a queue context under
  its queue and executor: the map of the queue is cloned and extended when there is one,
  and created otherwise.
\<close>

definition storeByQueueAndExecutor ::
  "QueueSchedulingContext \<Rightarrow> (string, QueueSchedulingContextByExecutor) gomap
     \<Rightarrow> (string, QueueSchedulingContextByExecutor) gomap" where
  "storeByQueueAndExecutor qctx m =
     (case map_of m (qctx_Queue qctx) of
        Some previous \<Rightarrow> AList.update (qctx_Queue qctx) (AList.update (qctx_ExecutorId qctx) qctx previous) m
      | None \<Rightarrow> AList.update (qctx_Queue qctx) [(qctx_ExecutorId qctx, qctx)] m)"

type_synonym queueMaps =
  "(string, QueueSchedulingContextByExecutor) gomap \<times> (string, QueueSchedulingContextByExecutor) gomap
     \<times> (string, QueueSchedulingContextByExecutor) gomap"

text \<open>
  The loop of \<open>addQueueSchedulingContexts\<close> over the clones of the three maps (most
  recent, most recent successful, most recent preempting).
\<close>

fun addQueueSchedulingContextsLoop :: "QueueSchedulingContext list \<Rightarrow> queueMaps \<Rightarrow> error + queueMaps" where
  "addQueueSchedulingContextsLoop [] maps = Inr maps"
| "addQueueSchedulingContextsLoop (qctx # qctxs) (mostRecent, mostRecentSuccessful, mostRecentPreempting) =
     (if qctx_ExecutorId qctx = [] then
        Inl (ErrInvalidArgument ''ExecutorId'' [] ''received empty executorId'')
      else if qctx_Queue qctx = [] then
        Inl (ErrInvalidArgument ''Queue'' [] ''received empty queue name'')
      else
        addQueueSchedulingContextsLoop qctxs
          (storeByQueueAndExecutor qctx mostRecent,
           (if \<not> IsZero (qctx_ScheduledResourcesByPriority qctx)
            then storeByQueueAndExecutor qctx mostRecentSuccessful else mostRecentSuccessful),
           (if \<not> IsZero (qctx_EvictedResourcesByPriority qctx)
            then storeByQueueAndExecutor qctx mostRecentPreempting else mostRecentPreempting)))"

definition addQueueSchedulingContexts ::
  "SchedulingContextRepository \<Rightarrow> QueueSchedulingContext list \<Rightarrow> error option \<times> SchedulingContextRepository" where
  "addQueueSchedulingContexts repo qctxs =
     (case addQueueSchedulingContextsLoop qctxs
             (mostRecentQueueSchedulingContextByExecutorByQueueP repo,
              mostRecentSuccessfulQueueSchedulingContextByExecutorByQueueP repo,
              mostRecentPreemptingQueueSchedulingContextByExecutorByQueueP repo) of
        Inl err \<Rightarrow> (Some err, repo)
      | Inr (mostRecent, mostRecentSuccessful, mostRecentPreempting) \<Rightarrow>
          (None, repo\<lparr>mostRecentQueueSchedulingContextByExecutorByQueueP := mostRecent,
                      mostRecentSuccessfulQueueSchedulingContextByExecutorByQueueP := mostRecentSuccessful,
                      mostRecentPreemptingQueueSchedulingContextByExecutorByQueueP := mostRecentPreempting\<rparr>))"

definition addSchedulingContext ::
  "SchedulingContextRepository \<Rightarrow> SchedulingContext \<Rightarrow> error option \<times> SchedulingContextRepository" where
  "addSchedulingContext repo sctx =
     (let mostRecentSchedulingContextByExecutor =
            AList.update (sctx_ExecutorId sctx) sctx (mostRecentSchedulingContextByExecutorP repo);
          mostRecentSuccessfulSchedulingContextByExecutor =
            (if \<not> IsZero (ScheduledResourcesByPriority sctx)
             then AList.update (sctx_ExecutorId sctx) sctx (mostRecentSuccessfulSchedulingContextByExecutorP repo)
             else mostRecentSuccessfulSchedulingContextByExecutorP repo);
          mostRecentPreemptingContextByExecutor =
            (if \<not> IsZero (EvictedResourcesByPriority sctx)
             then AList.update (sctx_ExecutorId sctx) sctx (mostRecentPreemptingSchedulingContextByExecutorP repo)
             else mostRecentPreemptingSchedulingContextByExecutorP repo)
      in (None, repo\<lparr>mostRecentSchedulingContextByExecutorP := mostRecentSchedulingContextByExecutor,
                     mostRecentSuccessfulSchedulingContextByExecutorP := mostRecentSuccessfulSchedulingContextByExecutor,
                     mostRecentPreemptingSchedulingContextByExecutorP := mostRecentPreemptingContextByExecutor\<rparr>))"

definition addExecutorId ::
  "SchedulingContextRepository \<Rightarrow> string \<Rightarrow> error option \<times> SchedulingContextRepository" where
  "addExecutorId repo executorId =
     (let n = length (executorIds repo);
          ids = AList.update executorId True (executorIds repo)
      in if length ids \<noteq> n
         then (None, repo\<lparr>executorIds := ids, sortedExecutorIdsP := sort (map fst ids)\<rparr>)
         else (None, repo\<lparr>executorIds := ids\<rparr>))"

definition AddSchedulingContext ::
  "env \<Rightarrow> SchedulingContextRepository \<Rightarrow> SchedulingContext \<Rightarrow> error option \<times> SchedulingContextRepository" where
  "AddSchedulingContext e repo sctx =
     (let (queueSchedulingContextByQueue, jobSchedulingContextByJobId) = extractQueueAndJobContexts sctx
      in case addJobSchedulingContexts repo (map snd (range_jobs e jobSchedulingContextByJobId)) of
           (Some err, repo1) \<Rightarrow> (Some err, repo1)
         | (None, repo1) \<Rightarrow>
             (case addQueueSchedulingContexts repo1 (map snd (range_queues e queueSchedulingContextByQueue)) of
                (Some err, repo2) \<Rightarrow> (Some err, repo2)
              | (None, repo2) \<Rightarrow>
                  (case addSchedulingContext repo2 sctx of
                     (Some err, repo3) \<Rightarrow> (Some err, repo3)
                   | (None, repo3) \<Rightarrow> addExecutorId repo3 (sctx_ExecutorId sctx))))"

section \<open>Reading the repository\<close>

definition GetMostRecentSchedulingContextByExecutor :: "SchedulingContextRepository \<Rightarrow> SchedulingContextByExecutor" where
  "GetMostRecentSchedulingContextByExecutor repo = mostRecentSchedulingContextByExecutorP repo"

definition GetMostRecentSuccessfulSchedulingContextByExecutor :: "SchedulingContextRepository \<Rightarrow> SchedulingContextByExecutor" where
  "GetMostRecentSuccessfulSchedulingContextByExecutor repo = mostRecentSuccessfulSchedulingContextByExecutorP repo"

definition GetMostRecentPreemptingSchedulingContextByExecutor :: "SchedulingContextRepository \<Rightarrow> SchedulingContextByExecutor" where
  "GetMostRecentPreemptingSchedulingContextByExecutor repo = mostRecentPreemptingSchedulingContextByExecutorP repo"

text \<open>
  A lookup in a map of maps returns the map found and whether the key was present; the
  map of a missing key is nil, which reads as the empty map.
\<close>

definition lookupByQueue ::
  "(string, QueueSchedulingContextByExecutor) gomap \<Rightarrow> string \<Rightarrow> QueueSchedulingContextByExecutor \<times> bool" where
  "lookupByQueue m queue = (case map_of m queue of Some byExecutor \<Rightarrow> (byExecutor, True) | None \<Rightarrow> ([], False))"

definition GetMostRecentQueueSchedulingContextByExecutor ::
  "SchedulingContextRepository \<Rightarrow> string \<Rightarrow> QueueSchedulingContextByExecutor \<times> bool" where
  "GetMostRecentQueueSchedulingContextByExecutor repo queue =
     lookupByQueue (mostRecentQueueSchedulingContextByExecutorByQueueP repo) queue"

definition GetMostRecentSuccessfulQueueSchedulingContextByExecutor ::
  "SchedulingContextRepository \<Rightarrow> string \<Rightarrow> QueueSchedulingContextByExecutor \<times> bool" where
  "GetMostRecentSuccessfulQueueSchedulingContextByExecutor repo queue =
     lookupByQueue (mostRecentSuccessfulQueueSchedulingContextByExecutorByQueueP repo) queue"

definition GetMostRecentPreemptingQueueSchedulingContextByExecutor ::
  "SchedulingContextRepository \<Rightarrow> string \<Rightarrow> QueueSchedulingContextByExecutor \<times> bool" where
  "GetMostRecentPreemptingQueueSchedulingContextByExecutor repo queue =
     lookupByQueue (mostRecentPreemptingQueueSchedulingContextByExecutorByQueueP repo) queue"

text \<open>\<open>Get\<close> on the cache moves the entry it finds to the front, so the lookup returns the repository too.\<close>

definition GetMostRecentJobSchedulingContextByExecutor ::
  "SchedulingContextRepository \<Rightarrow> string
     \<Rightarrow> (JobSchedulingContextByExecutor \<times> bool) \<times> SchedulingContextRepository" where
  "GetMostRecentJobSchedulingContextByExecutor repo jobId =
     (case lru_Get jobId (mostRecentJobSchedulingContextByExecutorByJobId repo) of
        (Some jobSchedulingContextByExecutor, cache) \<Rightarrow>
          ((jobSchedulingContextByExecutor, True), repo\<lparr>mostRecentJobSchedulingContextByExecutorByJobId := cache\<rparr>)
      | (None, cache) \<Rightarrow> (([], False), repo))"

definition GetSortedExecutorIds :: "SchedulingContextRepository \<Rightarrow> string list" where
  "GetSortedExecutorIds repo = sortedExecutorIdsP repo"

section \<open>Reports\<close>

text \<open>The values of a report's maps may be nil: the back pointer of a queue context may be.\<close>

record schedulingReport =
  mostRecentSchedulingContextByExecutor :: "(string, SchedulingContext option) gomap"
  mostRecentSuccessfulSchedulingContextByExecutor :: "(string, SchedulingContext option) gomap"
  mostRecentPreemptingSchedulingContextByExecutor :: "(string, SchedulingContext option) gomap"
  sortedExecutorIds :: "string list"

definition getSchedulingReportForQueue :: "env \<Rightarrow> SchedulingContextRepository \<Rightarrow> string \<Rightarrow> schedulingReport" where
  "getSchedulingReportForQueue e repo queueName =
     (let mostRecent = fst (GetMostRecentQueueSchedulingContextByExecutor repo queueName);
          mostRecentSuccessful = fst (GetMostRecentSuccessfulQueueSchedulingContextByExecutor repo queueName);
          mostRecentPreempting = fst (GetMostRecentPreemptingQueueSchedulingContextByExecutor repo queueName)
      in \<lparr>mostRecentSchedulingContextByExecutor =
             MapValues mostRecent (GetSchedulingContextFromQueueSchedulingContext e),
           mostRecentSuccessfulSchedulingContextByExecutor =
             MapValues mostRecentSuccessful (GetSchedulingContextFromQueueSchedulingContext e),
           mostRecentPreemptingSchedulingContextByExecutor =
             MapValues mostRecentPreempting (GetSchedulingContextFromQueueSchedulingContext e),
           sortedExecutorIds = GetSortedExecutorIds repo\<rparr>)"

text \<open>
  One turn of the three loops of \<open>getSchedulingReportForJob\<close>: a queue context older
  than the one already chosen for its executor is skipped; otherwise it is chosen when it
  holds the job in one of the maps the loop looks at.
\<close>

definition mostRecentForJobStep ::
  "(QueueSchedulingContext \<Rightarrow> bool) \<Rightarrow> string \<times> QueueSchedulingContext
     \<Rightarrow> (string, QueueSchedulingContext) gomap \<Rightarrow> (string, QueueSchedulingContext) gomap" where
  "mostRecentForJobStep holdsJob = (\<lambda>(executorId, qctx) mostRecent.
     (if (case map_of mostRecent executorId of
            Some existing \<Rightarrow> qctx_Created qctx < qctx_Created existing
          | None \<Rightarrow> False)
      then mostRecent
      else if holdsJob qctx then AList.update executorId qctx mostRecent
      else mostRecent))"

definition mostRecentForJobLoop ::
  "(QueueSchedulingContext \<Rightarrow> bool) \<Rightarrow> (string, QueueSchedulingContextByExecutor) gomap
     \<Rightarrow> (string, QueueSchedulingContext) gomap" where
  "mostRecentForJobLoop holdsJob byExecutorByQueue =
     fold (\<lambda>(queue, byExecutor) mostRecent. fold (mostRecentForJobStep holdsJob) byExecutor mostRecent)
       byExecutorByQueue []"

definition hasKey :: "('k, 'v) gomap \<Rightarrow> 'k \<Rightarrow> bool" where
  "hasKey m k = (map_of m k \<noteq> None)"

definition getSchedulingReportForJob :: "env \<Rightarrow> SchedulingContextRepository \<Rightarrow> string \<Rightarrow> schedulingReport" where
  "getSchedulingReportForJob e repo jobId =
     (let mostRecent =
            mostRecentForJobLoop
              (\<lambda>qctx. hasKey (SuccessfulJobSchedulingContexts qctx) jobId
                     \<or> hasKey (UnsuccessfulJobSchedulingContexts qctx) jobId
                     \<or> hasKey (EvictedJobsById qctx) jobId)
              (mostRecentQueueSchedulingContextByExecutorByQueueP repo);
          mostRecentSuccessful =
            mostRecentForJobLoop (\<lambda>qctx. hasKey (SuccessfulJobSchedulingContexts qctx) jobId)
              (mostRecentSuccessfulQueueSchedulingContextByExecutorByQueueP repo);
          mostRecentPreempting =
            mostRecentForJobLoop (\<lambda>qctx. hasKey (EvictedJobsById qctx) jobId)
              (mostRecentPreemptingQueueSchedulingContextByExecutorByQueueP repo)
      in \<lparr>mostRecentSchedulingContextByExecutor =
             MapValues mostRecent (GetSchedulingContextFromQueueSchedulingContext e),
           mostRecentSuccessfulSchedulingContextByExecutor =
             MapValues mostRecentSuccessful (GetSchedulingContextFromQueueSchedulingContext e),
           mostRecentPreemptingSchedulingContextByExecutor =
             MapValues mostRecentPreempting (GetSchedulingContextFromQueueSchedulingContext e),
           sortedExecutorIds = GetSortedExecutorIds repo\<rparr>)"

definition getSchedulingReport :: "SchedulingContextRepository \<Rightarrow> schedulingReport" where
  "getSchedulingReport repo =
     \<lparr>mostRecentSchedulingContextByExecutor = MapValues (GetMostRecentSchedulingContextByExecutor repo) Some,
      mostRecentSuccessfulSchedulingContextByExecutor =
        MapValues (GetMostRecentSuccessfulSchedulingContextByExecutor repo) Some,
      mostRecentPreemptingSchedulingContextByExecutor =
        MapValues (GetMostRecentPreemptingSchedulingContextByExecutor repo) Some,
      sortedExecutorIds = GetSortedExecutorIds repo\<rparr>"

text \<open>
  The text written for one attempt of one executor: the title and the printed context
  when there is one, the title followed by \<open>none\<close> otherwise.
\<close>

definition attemptText :: "env \<Rightarrow> string \<Rightarrow> string option \<Rightarrow> string" where
  "attemptText e title printed =
     (case printed of
        Some report \<Rightarrow>
          indent_String e tabchar (title @ '':'' @ newline) @ indent_String e (tabchar @ tabchar) report
      | None \<Rightarrow> indent_String e tabchar (title @ '': none'' @ newline))"

definition pointerAt :: "(string, 'a option) gomap \<Rightarrow> string \<Rightarrow> 'a option" where
  "pointerAt m k = (case map_of m k of Some (Some x) \<Rightarrow> Some x | _ \<Rightarrow> None)"

definition ReportString :: "env \<Rightarrow> schedulingReport \<Rightarrow> int32 \<Rightarrow> string" where
  "ReportString e sr verbosity =
     tabwriter e (concat (map (\<lambda>executorId.
       executorId @ '':'' @ newline
       @ attemptText e ''Most recent attempt''
           (map_option (\<lambda>sctx. sctx_ReportString e sctx verbosity)
              (pointerAt (mostRecentSchedulingContextByExecutor sr) executorId))
       @ attemptText e ''Most recent successful attempt''
           (map_option (\<lambda>sctx. sctx_ReportString e sctx verbosity)
              (pointerAt (mostRecentSuccessfulSchedulingContextByExecutor sr) executorId))
       @ attemptText e ''Most recent preempting attempt''
           (map_option (\<lambda>sctx. sctx_ReportString e sctx verbosity)
              (pointerAt (mostRecentPreemptingSchedulingContextByExecutor sr) executorId)))
       (sortedExecutorIds sr)))"

datatype SchedulingReportRequest_Filter =
    MostRecentForQueue string
  | MostRecentForJob string
  | NoFilter

record SchedulingReportRequest =
  srr_Filter :: SchedulingReportRequest_Filter
  srr_Verbosity :: int32

record QueueReportRequest =
  qrr_QueueName :: string
  qrr_Verbosity :: int32

record JobReportRequest =
  jrr_JobId :: string

definition GetSchedulingReport :: "env \<Rightarrow> SchedulingContextRepository \<Rightarrow> SchedulingReportRequest \<Rightarrow> error + string" where
  "GetSchedulingReport e repo request =
     (let sr = (case srr_Filter request of
                  MostRecentForQueue name \<Rightarrow> getSchedulingReportForQueue e repo (TrimSpace e name)
                | MostRecentForJob name \<Rightarrow> getSchedulingReportForJob e repo (TrimSpace e name)
                | NoFilter \<Rightarrow> getSchedulingReport repo)
      in Inr (ReportString e sr (srr_Verbosity request)))"

definition getQueueReportString :: "env \<Rightarrow> SchedulingContextRepository \<Rightarrow> string \<Rightarrow> int32 \<Rightarrow> string" where
  "getQueueReportString e repo queue verbosity =
     (let sortedExecutorIds = GetSortedExecutorIds repo;
          mostRecentQueueSchedulingContextByExecutor =
            fst (GetMostRecentQueueSchedulingContextByExecutor repo queue);
          mostRecentSuccessfulQueueSchedulingContextByExecutor =
            fst (GetMostRecentSuccessfulQueueSchedulingContextByExecutor repo queue);
          mostRecentPreemptingQueueSchedulingContextByExecutor =
            fst (GetMostRecentPreemptingQueueSchedulingContextByExecutor repo queue)
      in tabwriter e (concat (map (\<lambda>executorId.
           executorId @ '':'' @ newline
           @ attemptText e ''Most recent attempt''
               (map_option (\<lambda>qctx. qctx_ReportString e qctx verbosity)
                  (map_of mostRecentQueueSchedulingContextByExecutor executorId))
           @ attemptText e ''Most recent successful attempt''
               (map_option (\<lambda>qctx. qctx_ReportString e qctx verbosity)
                  (map_of mostRecentSuccessfulQueueSchedulingContextByExecutor executorId))
           @ attemptText e ''Most recent preempting attempt''
               (map_option (\<lambda>qctx. qctx_ReportString e qctx verbosity)
                  (map_of mostRecentPreemptingQueueSchedulingContextByExecutor executorId)))
           sortedExecutorIds)))"

definition GetQueueReport :: "env \<Rightarrow> SchedulingContextRepository \<Rightarrow> QueueReportRequest \<Rightarrow> error + string" where
  "GetQueueReport e repo request =
     (let queueName = TrimSpace e (qrr_QueueName request);
          verbosity = qrr_Verbosity request
      in Inr (getQueueReportString e repo queueName verbosity))"

definition getJobReportString :: "env \<Rightarrow> SchedulingContextRepository \<Rightarrow> string \<Rightarrow> string \<times> SchedulingContextRepository" where
  "getJobReportString e repo jobId =
     (let sortedExecutorIds = GetSortedExecutorIds repo;
          ((jobSchedulingContextByExecutor, found), repo') = GetMostRecentJobSchedulingContextByExecutor repo jobId
      in (tabwriter e (concat (map (\<lambda>executorId.
            (case map_of jobSchedulingContextByExecutor executorId of
               Some jctx \<Rightarrow> executorId @ '':'' @ newline @ indent_String e tabchar (jctx_String e jctx)
             | None \<Rightarrow> executorId @ '': no recent attempt'' @ newline))
            sortedExecutorIds)),
          repo'))"

definition GetJobReport ::
  "env \<Rightarrow> SchedulingContextRepository \<Rightarrow> JobReportRequest \<Rightarrow> (error + string) \<times> SchedulingContextRepository" where
  "GetJobReport e repo request =
     (let jobId = TrimSpace e (jrr_JobId request)
      in if \<not> ulid_Parse e jobId then
           (Inl (ErrInvalidArgument ''jobId'' (jrr_JobId request)
                   (jrr_JobId request @ '' is not a valid jobId'')), repo)
         else
           (let (report, repo') = getJobReportString e repo jobId in (Inr report, repo')))"

section \<open>Concrete inputs\<close>

text \<open>
  An environment, contexts and repositories on which the model is evaluated.  The
  environment trims ASCII white space, takes for a ULID every string of 26 characters
  whose first one is at most \<open>7\<close> (what \<open>ulid.Parse\<close> checks), leaves the written text as
  it is and ranges over a map in the order of its list.
\<close>

definition asciiSpace :: "char \<Rightarrow> bool" where
  "asciiSpace c = (c \<in> set [CHR 0x09, CHR 0x0A, CHR 0x0B, CHR 0x0C, CHR 0x0D, CHR 0x20])"

definition trimAscii :: "string \<Rightarrow> string" where
  "trimAscii s = rev (dropWhile asciiSpace (rev (dropWhile asciiSpace s)))"

definition exampleEnv :: env where
  "exampleEnv =
     \<lparr>TrimSpace = trimAscii,
      ulid_Parse = (\<lambda>s. length s = 26 \<and> of_char (hd s) \<le> (55 :: nat)),
      tabwriter = (\<lambda>s. s),
      indent_String = (\<lambda>ind s. ind @ s),
      sctx_ReportString = (\<lambda>sctx verbosity. ''scheduling context'' @ newline),
      qctx_ReportString = (\<lambda>qctx verbosity. ''queue context'' @ newline),
      jctx_String = (\<lambda>jctx. ''job context'' @ newline),
      GetSchedulingContextFromQueueSchedulingContext = (\<lambda>qctx. None),
      range_jobs = (\<lambda>m. m),
      range_queues = (\<lambda>m. m)\<rparr>"

definition exampleJob :: "string \<Rightarrow> JobSchedulingContext" where
  "exampleJob jobId = \<lparr>jctx_ExecutorId = ''executor'', jctx_JobId = jobId\<rparr>"

definition exampleQueue :: "string \<Rightarrow> string list \<Rightarrow> QueueSchedulingContext" where
  "exampleQueue queue jobIds =
     \<lparr>qctx_ExecutorId = ''executor'', qctx_Queue = queue, qctx_Created = 1,
      qctx_ScheduledResourcesByPriority = [(0, [(''cpu'', int (length jobIds))])],
      qctx_EvictedResourcesByPriority = [],
      SuccessfulJobSchedulingContexts = map (\<lambda>jobId. (jobId, exampleJob jobId)) jobIds,
      UnsuccessfulJobSchedulingContexts = [],
      EvictedJobsById = []\<rparr>"

definition exampleContext :: "string list \<Rightarrow> SchedulingContext" where
  "exampleContext jobIds =
     \<lparr>sctx_ExecutorId = ''executor'',
      ScheduledResourcesByPriority = [(0, [(''cpu'', int (length jobIds))])],
      EvictedResourcesByPriority = [],
      QueueSchedulingContexts = [(''A'', exampleQueue ''A'' jobIds)]\<rparr>"

definition emptyRepository :: "nat \<Rightarrow> SchedulingContextRepository" where
  "emptyRepository n =
     \<lparr>mostRecentSchedulingContextByExecutorP = [],
      mostRecentSuccessfulSchedulingContextByExecutorP = [],
      mostRecentPreemptingSchedulingContextByExecutorP = [],
      mostRecentQueueSchedulingContextByExecutorByQueueP = [],
      mostRecentSuccessfulQueueSchedulingContextByExecutorByQueueP = [],
      mostRecentPreemptingQueueSchedulingContextByExecutorByQueueP = [],
      mostRecentJobSchedulingContextByExecutorByJobId = \<lparr>lru_size = n, lru_items = []\<rparr>,
      executorIds = [],
      sortedExecutorIdsP = []\<rparr>"

definition exampleRepository :: SchedulingContextRepository where
  "exampleRepository =
     snd (AddSchedulingContext exampleEnv (emptyRepository 10) (exampleContext [''01h3w6kzvm4ew0pq5t8fbmd4nz'']))"

text \<open>A repository whose cache holds one job, after a context with two jobs was added.\<close>

definition crowdedRepository :: SchedulingContextRepository where
  "crowdedRepository =
     snd (AddSchedulingContext exampleEnv (emptyRepository 1)
            (exampleContext [''01h3w6kzvm4ew0pq5t8fbmd4nz'', ''01h3w6kzvm4ew0pq5t8fbmd4p0'']))"

section \<open>What the reports are checked against\<close>

text \<open>
  A queue has no stored context when none of the three maps by queue holds it.  A job has
  none when the cache does not hold it and no stored queue context holds it, be it as a
  successful, an unsuccessful or an evicted job.
\<close>

definition storedQueueContexts :: "(string, QueueSchedulingContextByExecutor) gomap \<Rightarrow> QueueSchedulingContext list" where
  "storedQueueContexts m = concat (map (\<lambda>(queue, byExecutor). map snd byExecutor) m)"

definition noStoredQueueContexts :: "SchedulingContextRepository \<Rightarrow> string \<Rightarrow> bool" where
  "noStoredQueueContexts repo queue =
     (map_of (mostRecentQueueSchedulingContextByExecutorByQueueP repo) queue = None
      \<and> map_of (mostRecentSuccessfulQueueSchedulingContextByExecutorByQueueP repo) queue = None
      \<and> map_of (mostRecentPreemptingQueueSchedulingContextByExecutorByQueueP repo) queue = None)"

definition holdsJob :: "string \<Rightarrow> QueueSchedulingContext \<Rightarrow> bool" where
  "holdsJob jobId qctx =
     (hasKey (SuccessfulJobSchedulingContexts qctx) jobId
      \<or> hasKey (UnsuccessfulJobSchedulingContexts qctx) jobId
      \<or> hasKey (EvictedJobsById qctx) jobId)"

definition noStoredJobContexts :: "SchedulingContextRepository \<Rightarrow> string \<Rightarrow> bool" where
  "noStoredJobContexts repo jobId =
     (lru_Peek jobId (mostRecentJobSchedulingContextByExecutorByJobId repo) = None
      \<and> list_all (\<lambda>qctx. \<not> holdsJob jobId qctx)
           (storedQueueContexts (mostRecentQueueSchedulingContextByExecutorByQueueP repo)
            @ storedQueueContexts (mostRecentSuccessfulQueueSchedulingContextByExecutorByQueueP repo)
            @ storedQueueContexts (mostRecentPreemptingQueueSchedulingContextByExecutorByQueueP repo)))"

text \<open>
  The text of a report whose every entry is absent: for each executor its name and the
  three attempts as \<open>none\<close>, and for a job \<open>no recent attempt\<close>.
\<close>

definition noAttemptsText :: "env \<Rightarrow> string list \<Rightarrow> string" where
  "noAttemptsText e ids =
     tabwriter e (concat (map (\<lambda>executorId.
       executorId @ '':'' @ newline
       @ indent_String e tabchar (''Most recent attempt: none'' @ newline)
       @ indent_String e tabchar (''Most recent successful attempt: none'' @ newline)
       @ indent_String e tabchar (''Most recent preempting attempt: none'' @ newline)) ids))"

definition noRecentAttemptText :: "env \<Rightarrow> string list \<Rightarrow> string" where
  "noRecentAttemptText e ids =
     tabwriter e (concat (map (\<lambda>executorId. executorId @ '': no recent attempt'' @ newline) ids))"

section \<open>Readers interleaved with a writer\<close>

text \<open>
  \<open>AddSchedulingContext\<close> holds the mutex of the repository from its first store to its
  return, so there is one writer at a time; readers take no lock.  What a reader can
  see is the repository between two atomic operations of the writer: an operation on the
  cache (which has a lock of its own), a write into a map that a cache entry refers to,
  or the store of an atomic pointer.  A \<open>writer\<close> is the point the call has reached,
  with the values it holds in local variables.
\<close>

datatype writer =
    AddingJobs "JobSchedulingContext list" "QueueSchedulingContext list" SchedulingContext
  | JobPeeked JobSchedulingContext JobSchedulingContextByExecutor
      "JobSchedulingContext list" "QueueSchedulingContext list" SchedulingContext
  | JobWritten JobSchedulingContext JobSchedulingContextByExecutor
      "JobSchedulingContext list" "QueueSchedulingContext list" SchedulingContext
  | StoringQueues "QueueSchedulingContext list" SchedulingContext
  | QueuesStored1 "(string, QueueSchedulingContextByExecutor) gomap"
      "(string, QueueSchedulingContextByExecutor) gomap" SchedulingContext
  | QueuesStored2 "(string, QueueSchedulingContextByExecutor) gomap" SchedulingContext
  | StoringContext SchedulingContext
  | ContextStored1 SchedulingContextByExecutor SchedulingContextByExecutor SchedulingContext
  | ContextStored2 SchedulingContextByExecutor SchedulingContext
  | AddingExecutorId SchedulingContext
  | Returned "error option"

fun writer_step :: "writer \<Rightarrow> SchedulingContextRepository \<Rightarrow> writer \<times> SchedulingContextRepository" where
  "writer_step (AddingJobs [] qctxs sctx) repo = (StoringQueues qctxs sctx, repo)"
| "writer_step (AddingJobs (jctx # jctxs) qctxs sctx) repo =
     (if jctx_ExecutorId jctx = [] then
        (Returned (Some (ErrInvalidArgument ''ExecutorId'' [] ''received empty executorId'')), repo)
      else if jctx_JobId jctx = [] then
        (Returned (Some (ErrInvalidArgument ''JobId'' [] ''received empty jobId'')), repo)
      else
        (case lru_PeekOrAdd (jctx_JobId jctx) [(jctx_ExecutorId jctx, jctx)]
                (mostRecentJobSchedulingContextByExecutorByJobId repo) of
           (Some previous, cache) \<Rightarrow>
             (JobPeeked jctx previous jctxs qctxs sctx,
              repo\<lparr>mostRecentJobSchedulingContextByExecutorByJobId := cache\<rparr>)
         | (None, cache) \<Rightarrow>
             (AddingJobs jctxs qctxs sctx,
              repo\<lparr>mostRecentJobSchedulingContextByExecutorByJobId := cache\<rparr>)))"
| "writer_step (JobPeeked jctx previous jctxs qctxs sctx) repo =
     (let jobSchedulingContextByExecutor = AList.update (jctx_ExecutorId jctx) jctx previous
      in (JobWritten jctx jobSchedulingContextByExecutor jctxs qctxs sctx,
          repo\<lparr>mostRecentJobSchedulingContextByExecutorByJobId :=
            lru_write_in_place (jctx_JobId jctx) jobSchedulingContextByExecutor
              (mostRecentJobSchedulingContextByExecutorByJobId repo)\<rparr>))"
| "writer_step (JobWritten jctx jobSchedulingContextByExecutor jctxs qctxs sctx) repo =
     (AddingJobs jctxs qctxs sctx,
      repo\<lparr>mostRecentJobSchedulingContextByExecutorByJobId :=
        lru_Add (jctx_JobId jctx) jobSchedulingContextByExecutor
          (mostRecentJobSchedulingContextByExecutorByJobId repo)\<rparr>)"
| "writer_step (StoringQueues qctxs sctx) repo =
     (case addQueueSchedulingContextsLoop qctxs
             (mostRecentQueueSchedulingContextByExecutorByQueueP repo,
              mostRecentSuccessfulQueueSchedulingContextByExecutorByQueueP repo,
              mostRecentPreemptingQueueSchedulingContextByExecutorByQueueP repo) of
        Inl err \<Rightarrow> (Returned (Some err), repo)
      | Inr (mostRecent, mostRecentSuccessful, mostRecentPreempting) \<Rightarrow>
          (QueuesStored1 mostRecentSuccessful mostRecentPreempting sctx,
           repo\<lparr>mostRecentQueueSchedulingContextByExecutorByQueueP := mostRecent\<rparr>))"
| "writer_step (QueuesStored1 mostRecentSuccessful mostRecentPreempting sctx) repo =
     (QueuesStored2 mostRecentPreempting sctx,
      repo\<lparr>mostRecentSuccessfulQueueSchedulingContextByExecutorByQueueP := mostRecentSuccessful\<rparr>)"
| "writer_step (QueuesStored2 mostRecentPreempting sctx) repo =
     (StoringContext sctx,
      repo\<lparr>mostRecentPreemptingQueueSchedulingContextByExecutorByQueueP := mostRecentPreempting\<rparr>)"
| "writer_step (StoringContext sctx) repo =
     (ContextStored1
        (if \<not> IsZero (ScheduledResourcesByPriority sctx)
         then AList.update (sctx_ExecutorId sctx) sctx (mostRecentSuccessfulSchedulingContextByExecutorP repo)
         else mostRecentSuccessfulSchedulingContextByExecutorP repo)
        (if \<not> IsZero (EvictedResourcesByPriority sctx)
         then AList.update (sctx_ExecutorId sctx) sctx (mostRecentPreemptingSchedulingContextByExecutorP repo)
         else mostRecentPreemptingSchedulingContextByExecutorP repo)
        sctx,
      repo\<lparr>mostRecentSchedulingContextByExecutorP :=
        AList.update (sctx_ExecutorId sctx) sctx (mostRecentSchedulingContextByExecutorP repo)\<rparr>)"
| "writer_step (ContextStored1 mostRecentSuccessful mostRecentPreempting sctx) repo =
     (ContextStored2 mostRecentPreempting sctx,
      repo\<lparr>mostRecentSuccessfulSchedulingContextByExecutorP := mostRecentSuccessful\<rparr>)"
| "writer_step (ContextStored2 mostRecentPreempting sctx) repo =
     (AddingExecutorId sctx,
      repo\<lparr>mostRecentPreemptingSchedulingContextByExecutorP := mostRecentPreempting\<rparr>)"
| "writer_step (AddingExecutorId sctx) repo =
     (case addExecutorId repo (sctx_ExecutorId sctx) of (err, repo') \<Rightarrow> (Returned err, repo'))"
| "writer_step (Returned err) repo = (Returned err, repo)"

text \<open>
  The job contexts of a scheduling context, queue by queue.  In a well-formed context
  the keys of a map are distinct, as the keys of a Go map are, and a job stands in one
  queue context only, as successful or as unsuccessful.
\<close>

definition jobEntries :: "SchedulingContext \<Rightarrow> (string \<times> JobSchedulingContext) list" where
  "jobEntries sctx =
     concat (map (\<lambda>(queue, qctx). SuccessfulJobSchedulingContexts qctx @ UnsuccessfulJobSchedulingContexts qctx)
               (QueueSchedulingContexts sctx))"

definition wellFormed :: "SchedulingContext \<Rightarrow> bool" where
  "wellFormed sctx = (distinct (map fst (QueueSchedulingContexts sctx)) \<and> distinct (map fst (jobEntries sctx)))"

definition queueChildren :: "SchedulingContext \<Rightarrow> QueueSchedulingContext set" where
  "queueChildren sctx = snd ` set (QueueSchedulingContexts sctx)"

definition jobChildren :: "SchedulingContext \<Rightarrow> JobSchedulingContext set" where
  "jobChildren sctx = snd ` set (jobEntries sctx)"

text \<open>
  A state of the system is the repository and the writer that holds the mutex, if any.
  A step is a writer taking the mutex with a well-formed context whose job ids lie in
  \<open>J\<close> (it ranges over the extracted maps in some order), one atomic operation of the
  writer, the writer returning, or a reader looking up a job in the cache, which moves
  the entry to the front.  The other reads leave the repository as it is.
\<close>

type_synonym system = "SchedulingContextRepository \<times> writer option"

inductive step :: "string set \<Rightarrow> system \<Rightarrow> system \<Rightarrow> bool" for J :: "string set" where
  Lock:
    "wellFormed sctx \<Longrightarrow> jctx_JobId ` jobChildren sctx \<subseteq> J \<Longrightarrow>
     mset jctxs = mset (map snd (snd (extractQueueAndJobContexts sctx))) \<Longrightarrow>
     mset qctxs = mset (map snd (fst (extractQueueAndJobContexts sctx))) \<Longrightarrow>
     step J (repo, None) (repo, Some (AddingJobs jctxs qctxs sctx))"
| Writer:
    "\<forall>err. w \<noteq> Returned err \<Longrightarrow> writer_step w repo = (w', repo') \<Longrightarrow>
     step J (repo, Some w) (repo', Some w')"
| Unlock:
    "step J (repo, Some (Returned err)) (repo, None)"
| ReaderGet:
    "step J (repo, w) (snd (GetMostRecentJobSchedulingContextByExecutor repo jobId), w)"

inductive reachable :: "string set \<Rightarrow> system \<Rightarrow> bool" for J :: "string set" where
  Init: "NewSchedulingContextRepository n = Inr repo \<Longrightarrow> reachable J (repo, None)"
| Step: "reachable J s \<Longrightarrow> step J s s' \<Longrightarrow> reachable J s'"

text \<open>
  The scheduling contexts a reader can load from the repository, and what it means to
  find the queue context or the job context a scheduling context refers to: the map by
  queue holds an entry for its queue and executor, the cache one for its job and executor.
\<close>

definition storedContexts :: "SchedulingContextRepository \<Rightarrow> SchedulingContext set" where
  "storedContexts repo =
     snd ` (set (mostRecentSchedulingContextByExecutorP repo)
            \<union> set (mostRecentSuccessfulSchedulingContextByExecutorP repo)
            \<union> set (mostRecentPreemptingSchedulingContextByExecutorP repo))"

definition queueFound :: "SchedulingContextRepository \<Rightarrow> QueueSchedulingContext \<Rightarrow> bool" where
  "queueFound repo qctx =
     (case map_of (mostRecentQueueSchedulingContextByExecutorByQueueP repo) (qctx_Queue qctx) of
        Some byExecutor \<Rightarrow> hasKey byExecutor (qctx_ExecutorId qctx)
      | None \<Rightarrow> False)"

definition jobFound :: "SchedulingContextRepository \<Rightarrow> JobSchedulingContext \<Rightarrow> bool" where
  "jobFound repo jctx =
     (case lru_Peek (jctx_JobId jctx) (mostRecentJobSchedulingContextByExecutorByJobId repo) of
        Some byExecutor \<Rightarrow> hasKey byExecutor (jctx_ExecutorId jctx)
      | None \<Rightarrow> False)"

section \<open>Invariants of the interleaved system\<close>

text \<open>
  What holds in every state a reader can see.  For the queue contexts: the children of
  every stored scheduling context are found, and the writer still holds, among the queue
  contexts it is about to store, the children of its own context that are not found yet.
\<close>

definition foundIn :: "(string, QueueSchedulingContextByExecutor) gomap \<Rightarrow> QueueSchedulingContext \<Rightarrow> bool" where
  "foundIn m qctx =
     (case map_of m (qctx_Queue qctx) of
        Some byExecutor \<Rightarrow> hasKey byExecutor (qctx_ExecutorId qctx)
      | None \<Rightarrow> False)"

fun writer_inv_q :: "SchedulingContextRepository \<Rightarrow> writer \<Rightarrow> bool" where
  "writer_inv_q repo (AddingJobs jctxs qctxs sctx) = (queueChildren sctx \<subseteq> set qctxs)"
| "writer_inv_q repo (JobPeeked jctx previous jctxs qctxs sctx) = (queueChildren sctx \<subseteq> set qctxs)"
| "writer_inv_q repo (JobWritten jctx m jctxs qctxs sctx) = (queueChildren sctx \<subseteq> set qctxs)"
| "writer_inv_q repo (StoringQueues qctxs sctx) = (queueChildren sctx \<subseteq> set qctxs)"
| "writer_inv_q repo (QueuesStored1 b c sctx) = (\<forall>q \<in> queueChildren sctx. queueFound repo q)"
| "writer_inv_q repo (QueuesStored2 c sctx) = (\<forall>q \<in> queueChildren sctx. queueFound repo q)"
| "writer_inv_q repo (StoringContext sctx) = (\<forall>q \<in> queueChildren sctx. queueFound repo q)"
| "writer_inv_q repo (ContextStored1 b c sctx) = (\<forall>q \<in> queueChildren sctx. queueFound repo q)"
| "writer_inv_q repo (ContextStored2 c sctx) = (\<forall>q \<in> queueChildren sctx. queueFound repo q)"
| "writer_inv_q repo (AddingExecutorId sctx) = True"
| "writer_inv_q repo (Returned err) = True"

text \<open>The maps a writer is about to publish hold nothing but its own context and stored ones.\<close>

fun writer_inv_m :: "SchedulingContextRepository \<Rightarrow> writer \<Rightarrow> bool" where
  "writer_inv_m repo (ContextStored1 b c sctx) =
     (snd ` set b \<subseteq> insert sctx (snd ` set (mostRecentSuccessfulSchedulingContextByExecutorP repo))
      \<and> snd ` set c \<subseteq> insert sctx (snd ` set (mostRecentPreemptingSchedulingContextByExecutorP repo)))"
| "writer_inv_m repo (ContextStored2 c sctx) =
     (snd ` set c \<subseteq> insert sctx (snd ` set (mostRecentPreemptingSchedulingContextByExecutorP repo)))"
| "writer_inv_m repo w = True"

text \<open>The invariant for the queue contexts.\<close>

definition inv_q :: "system \<Rightarrow> bool" where
  "inv_q s =
     ((\<forall>sctx \<in> storedContexts (fst s). \<forall>q \<in> queueChildren sctx. queueFound (fst s) q)
      \<and> (case snd s of None \<Rightarrow> True | Some w \<Rightarrow> writer_inv_q (fst s) w \<and> writer_inv_m (fst s) w))"

text \<open>
  For the job contexts the cache must not evict: one cache extends another when every
  entry of the first is in the second, with at least the executors it had; and the keys
  of the cache are distinct and lie in a finite set \<open>J\<close> no larger than the cache.
\<close>

definition cache_le ::
  "(string, JobSchedulingContextByExecutor) lru \<Rightarrow> (string, JobSchedulingContextByExecutor) lru \<Rightarrow> bool" where
  "cache_le c c' =
     (\<forall>k byExecutor. lru_Peek k c = Some byExecutor \<longrightarrow>
        (\<exists>byExecutor'. lru_Peek k c' = Some byExecutor' \<and> (\<forall>e. hasKey byExecutor e \<longrightarrow> hasKey byExecutor' e)))"

definition cache_inv :: "string set \<Rightarrow> (string, JobSchedulingContextByExecutor) lru \<Rightarrow> bool" where
  "cache_inv J c =
     (fst ` set (lru_items c) \<subseteq> J \<and> distinct (map fst (lru_items c)) \<and> finite J \<and> card J \<le> lru_size c)"

abbreviation (input) jobCache :: "SchedulingContextRepository \<Rightarrow> (string, JobSchedulingContextByExecutor) lru" where
  "jobCache repo \<equiv> mostRecentJobSchedulingContextByExecutorByJobId repo"

fun writer_inv_j :: "string set \<Rightarrow> SchedulingContextRepository \<Rightarrow> writer \<Rightarrow> bool" where
  "writer_inv_j J repo (AddingJobs jctxs qctxs sctx) =
     ((\<forall>j \<in> jobChildren sctx. j \<in> set jctxs \<or> jobFound repo j) \<and> jctx_JobId ` set jctxs \<subseteq> J)"
| "writer_inv_j J repo (JobPeeked jctx previous jctxs qctxs sctx) =
     ((\<forall>j \<in> jobChildren sctx. j = jctx \<or> j \<in> set jctxs \<or> jobFound repo j) \<and> jctx_JobId ` set jctxs \<subseteq> J
      \<and> lru_Peek (jctx_JobId jctx) (jobCache repo) = Some previous)"
| "writer_inv_j J repo (JobWritten jctx m jctxs qctxs sctx) =
     ((\<forall>j \<in> jobChildren sctx. j \<in> set jctxs \<or> jobFound repo j) \<and> jctx_JobId ` set jctxs \<subseteq> J
      \<and> lru_Peek (jctx_JobId jctx) (jobCache repo) = Some m)"
| "writer_inv_j J repo (StoringQueues qctxs sctx) = (\<forall>j \<in> jobChildren sctx. jobFound repo j)"
| "writer_inv_j J repo (QueuesStored1 b c sctx) = (\<forall>j \<in> jobChildren sctx. jobFound repo j)"
| "writer_inv_j J repo (QueuesStored2 c sctx) = (\<forall>j \<in> jobChildren sctx. jobFound repo j)"
| "writer_inv_j J repo (StoringContext sctx) = (\<forall>j \<in> jobChildren sctx. jobFound repo j)"
| "writer_inv_j J repo (ContextStored1 b c sctx) = (\<forall>j \<in> jobChildren sctx. jobFound repo j)"
| "writer_inv_j J repo (ContextStored2 c sctx) = (\<forall>j \<in> jobChildren sctx. jobFound repo j)"
| "writer_inv_j J repo (AddingExecutorId sctx) = True"
| "writer_inv_j J repo (Returned err) = True"

text \<open>The context a writer is storing, once it has reached \<open>addSchedulingContext\<close>.\<close>

fun storing :: "writer \<Rightarrow> SchedulingContext set" where
  "storing (StoringContext sctx) = {sctx}"
| "storing (ContextStored1 b c sctx) = {sctx}"
| "storing (ContextStored2 c sctx) = {sctx}"
| "storing w = {}"

text \<open>The invariant for the job contexts.\<close>

definition inv_j :: "string set \<Rightarrow> system \<Rightarrow> bool" where
  "inv_j J s =
     (cache_inv J (jobCache (fst s))
      \<and> (\<forall>sctx \<in> storedContexts (fst s). \<forall>j \<in> jobChildren sctx. jobFound (fst s) j)
      \<and> (case snd s of None \<Rightarrow> True | Some w \<Rightarrow> writer_inv_j J (fst s) w))"

section \<open>Reports when nothing is stored\<close>

lemma mostRecentForJobStep_skip:
  "\<not> P (snd x) \<Longrightarrow> mostRecentForJobStep P x acc = acc"
  by (cases x) (simp add: mostRecentForJobStep_def)

lemma fold_mostRecentForJobStep_skip:
  "list_all (\<lambda>qctx. \<not> P qctx) (map snd xs) \<Longrightarrow> fold (mostRecentForJobStep P) xs acc = acc"
  by (induction xs arbitrary: acc) (simp_all add: mostRecentForJobStep_skip)

lemma mostRecentForJobLoop_fold_skip:
  "list_all (\<lambda>qctx. \<not> P qctx) (storedQueueContexts m) \<Longrightarrow>
   fold (\<lambda>(queue, byExecutor) mostRecent. fold (mostRecentForJobStep P) byExecutor mostRecent) m acc = acc"
  by (induction m arbitrary: acc)
     (auto simp add: storedQueueContexts_def fold_mostRecentForJobStep_skip split: prod.splits)

lemma mostRecentForJobLoop_empty:
  "list_all (\<lambda>qctx. \<not> P qctx) (storedQueueContexts m) \<Longrightarrow> mostRecentForJobLoop P m = []"
  by (simp add: mostRecentForJobLoop_def mostRecentForJobLoop_fold_skip)

lemma attemptText_None:
  "attemptText e title None = indent_String e tabchar (title @ '': none'' @ newline)"
  by (simp add: attemptText_def)

lemma ReportString_no_contexts:
  "mostRecentSchedulingContextByExecutor sr = [] \<Longrightarrow>
   mostRecentSuccessfulSchedulingContextByExecutor sr = [] \<Longrightarrow>
   mostRecentPreemptingSchedulingContextByExecutor sr = [] \<Longrightarrow>
   ReportString e sr verbosity = noAttemptsText e (sortedExecutorIds sr)"
  by (simp add: ReportString_def noAttemptsText_def pointerAt_def attemptText_None)

lemma getQueueReportString_absent:
  "noStoredQueueContexts repo queue \<Longrightarrow>
   getQueueReportString e repo queue verbosity = noAttemptsText e (sortedExecutorIdsP repo)"
  by (simp add: getQueueReportString_def noStoredQueueContexts_def noAttemptsText_def
      GetMostRecentQueueSchedulingContextByExecutor_def
      GetMostRecentSuccessfulQueueSchedulingContextByExecutor_def
      GetMostRecentPreemptingQueueSchedulingContextByExecutor_def
      lookupByQueue_def GetSortedExecutorIds_def attemptText_None)

lemma getSchedulingReportForQueue_absent:
  "noStoredQueueContexts repo queue \<Longrightarrow>
   ReportString e (getSchedulingReportForQueue e repo queue) verbosity = noAttemptsText e (sortedExecutorIdsP repo)"
  by (subst ReportString_no_contexts)
     (simp_all add: getSchedulingReportForQueue_def noStoredQueueContexts_def
      GetMostRecentQueueSchedulingContextByExecutor_def
      GetMostRecentSuccessfulQueueSchedulingContextByExecutor_def
      GetMostRecentPreemptingQueueSchedulingContextByExecutor_def
      lookupByQueue_def GetSortedExecutorIds_def MapValues_def)

lemma list_all_weaken: "list_all P xs \<Longrightarrow> (\<And>x. P x \<Longrightarrow> Q x) \<Longrightarrow> list_all Q xs"
  by (induction xs) auto

lemma getSchedulingReportForJob_absent:
  assumes "noStoredJobContexts repo jobId"
  shows "ReportString e (getSchedulingReportForJob e repo jobId) verbosity = noAttemptsText e (sortedExecutorIdsP repo)"
proof -
  from assms have a:
    "list_all (\<lambda>qctx. \<not> holdsJob jobId qctx) (storedQueueContexts (mostRecentQueueSchedulingContextByExecutorByQueueP repo))"
    "list_all (\<lambda>qctx. \<not> holdsJob jobId qctx) (storedQueueContexts (mostRecentSuccessfulQueueSchedulingContextByExecutorByQueueP repo))"
    "list_all (\<lambda>qctx. \<not> holdsJob jobId qctx) (storedQueueContexts (mostRecentPreemptingQueueSchedulingContextByExecutorByQueueP repo))"
    by (simp_all add: noStoredJobContexts_def)
  have 1: "mostRecentForJobLoop
              (\<lambda>qctx. hasKey (SuccessfulJobSchedulingContexts qctx) jobId
                     \<or> hasKey (UnsuccessfulJobSchedulingContexts qctx) jobId
                     \<or> hasKey (EvictedJobsById qctx) jobId)
              (mostRecentQueueSchedulingContextByExecutorByQueueP repo) = []"
    by (rule mostRecentForJobLoop_empty) (rule list_all_weaken [OF a(1)], simp add: holdsJob_def)
  have 2: "mostRecentForJobLoop (\<lambda>qctx. hasKey (SuccessfulJobSchedulingContexts qctx) jobId)
              (mostRecentSuccessfulQueueSchedulingContextByExecutorByQueueP repo) = []"
    by (rule mostRecentForJobLoop_empty) (rule list_all_weaken [OF a(2)], simp add: holdsJob_def)
  have 3: "mostRecentForJobLoop (\<lambda>qctx. hasKey (EvictedJobsById qctx) jobId)
              (mostRecentPreemptingQueueSchedulingContextByExecutorByQueueP repo) = []"
    by (rule mostRecentForJobLoop_empty) (rule list_all_weaken [OF a(3)], simp add: holdsJob_def)
  show ?thesis
    by (subst ReportString_no_contexts)
       (simp_all add: getSchedulingReportForJob_def 1 2 3 MapValues_def GetSortedExecutorIds_def)
qed

lemma getJobReportString_absent:
  "lru_Peek jobId (mostRecentJobSchedulingContextByExecutorByJobId repo) = None \<Longrightarrow>
   getJobReportString e repo jobId = (noRecentAttemptText e (sortedExecutorIdsP repo), repo)"
  by (simp add: getJobReportString_def GetMostRecentJobSchedulingContextByExecutor_def lru_Get_def
      lru_Peek_def noRecentAttemptText_def GetSortedExecutorIds_def)

section \<open>A stored context and what it refers to\<close>

subsection \<open>Association lists\<close>

lemma hasKey_update: "hasKey (AList.update k v al) k' = (k' = k \<or> hasKey al k')"
  by (simp add: hasKey_def update_conv')

lemma update_fresh: "k \<notin> fst ` set al \<Longrightarrow> AList.update k v al = al @ [(k, v)]"
  by (induction al) auto

lemma fold_update_fresh:
  "distinct (map fst (acc @ xs)) \<Longrightarrow> fold (\<lambda>(k, v). AList.update k v) xs acc = acc @ xs"
proof (induction xs arbitrary: acc)
  case Nil
  then show ?case by simp
next
  case (Cons x xs)
  obtain k v where x: "x = (k, v)" by (cases x)
  from Cons.prems have fresh: "k \<notin> fst ` set acc" by (auto simp: x)
  from Cons.prems have "distinct (map fst ((acc @ [(k, v)]) @ xs))" by (simp add: x)
  from Cons.IH [OF this] show ?case by (simp add: x update_fresh [OF fresh])
qed

lemma values_update_subset: "snd ` set (AList.update k v al) \<subseteq> insert v (snd ` set al)"
  by (induction al) auto

subsection \<open>What a well-formed context extracts\<close>

lemma extract_fold:
  "distinct (map fst (qacc @ qs)) \<Longrightarrow>
   distinct (map fst (jacc @ concat (map (\<lambda>(queue, qctx). SuccessfulJobSchedulingContexts qctx @ UnsuccessfulJobSchedulingContexts qctx) qs))) \<Longrightarrow>
   fold (\<lambda>(queue, qctx) (queueSchedulingContextByQueue, jobSchedulingContextByJobId).
             (AList.update queue qctx queueSchedulingContextByQueue,
              fold (\<lambda>(jobId, jctx). AList.update jobId jctx) (UnsuccessfulJobSchedulingContexts qctx)
                (fold (\<lambda>(jobId, jctx). AList.update jobId jctx) (SuccessfulJobSchedulingContexts qctx)
                   jobSchedulingContextByJobId)))
          qs (qacc, jacc)
   = (qacc @ qs, jacc @ concat (map (\<lambda>(queue, qctx). SuccessfulJobSchedulingContexts qctx @ UnsuccessfulJobSchedulingContexts qctx) qs))"
proof (induction qs arbitrary: qacc jacc)
  case Nil
  then show ?case by simp
next
  case (Cons x qs)
  obtain queue qctx where x: "x = (queue, qctx)" by (cases x)
  let ?S = "SuccessfulJobSchedulingContexts qctx"
  let ?U = "UnsuccessfulJobSchedulingContexts qctx"
  from Cons.prems(1) have fresh: "queue \<notin> fst ` set qacc" by (auto simp: x)
  from Cons.prems(2) have dS: "distinct (map fst (jacc @ ?S))" and dU: "distinct (map fst ((jacc @ ?S) @ ?U))"
    by (auto simp: x)
  have jobs: "fold (\<lambda>(jobId, jctx). AList.update jobId jctx) ?U
                (fold (\<lambda>(jobId, jctx). AList.update jobId jctx) ?S jacc) = (jacc @ ?S) @ ?U"
    by (simp only: fold_update_fresh [OF dS] fold_update_fresh [OF dU])
  from Cons.prems have d1: "distinct (map fst ((qacc @ [(queue, qctx)]) @ qs))" by (simp add: x)
  from Cons.prems(2) have d2: "distinct (map fst (((jacc @ ?S) @ ?U) @ concat (map (\<lambda>(queue, qctx). SuccessfulJobSchedulingContexts qctx @ UnsuccessfulJobSchedulingContexts qctx) qs)))"
    by (simp add: x)
  show ?case
    using Cons.IH [OF d1 d2] by (simp add: x jobs update_fresh [OF fresh])
qed

lemma extract_wellFormed:
  "wellFormed sctx \<Longrightarrow> extractQueueAndJobContexts sctx = (QueueSchedulingContexts sctx, jobEntries sctx)"
  unfolding extractQueueAndJobContexts_def wellFormed_def jobEntries_def
  using extract_fold [of "[]" "QueueSchedulingContexts sctx" "[]"] by simp

subsection \<open>Queue contexts\<close>

lemma queueFound_foundIn: "queueFound repo qctx = foundIn (mostRecentQueueSchedulingContextByExecutorByQueueP repo) qctx"
  by (simp add: queueFound_def foundIn_def)

lemma foundIn_store:
  "foundIn (storeByQueueAndExecutor qctx m) q =
     ((qctx_Queue q = qctx_Queue qctx \<and> qctx_ExecutorId q = qctx_ExecutorId qctx) \<or> foundIn m q)"
  by (auto simp add: foundIn_def storeByQueueAndExecutor_def update_conv' hasKey_update hasKey_def
      split: option.splits)

lemma loop_foundIn:
  "addQueueSchedulingContextsLoop qctxs (a, b, c) = Inr (a', b', c') \<Longrightarrow>
   (foundIn a q \<longrightarrow> foundIn a' q) \<and> (q \<in> set qctxs \<longrightarrow> foundIn a' q)"
proof (induction qctxs arbitrary: a b c)
  case Nil
  then show ?case by simp
next
  case (Cons x xs)
  from Cons.prems obtain b1 c1 where
    rest: "addQueueSchedulingContextsLoop xs (storeByQueueAndExecutor x a, b1, c1) = Inr (a', b', c')"
    by (auto split: if_splits)
  from Cons.IH [OF rest] show ?case by (auto simp add: foundIn_store)
qed

lemma queueFound_step:
  "step J s s' \<Longrightarrow> queueFound (fst s) q \<Longrightarrow> queueFound (fst s') q"
proof (induction rule: step.induct)
  case (Writer w repo w' repo')
  then show ?case
    by (cases "(w, repo)" rule: writer_step.cases)
       (auto simp add: queueFound_foundIn addExecutorId_def Let_def dest: loop_foundIn
          split: if_splits prod.splits option.splits sum.splits)
next
  case (ReaderGet repo w jobId)
  then show ?case
    by (auto simp add: queueFound_foundIn GetMostRecentJobSchedulingContextByExecutor_def
        split: prod.splits option.splits)
qed simp_all

lemma storedContexts_cache [simp]:
  "storedContexts (repo\<lparr>mostRecentJobSchedulingContextByExecutorByJobId := c\<rparr>) = storedContexts repo"
  by (simp add: storedContexts_def)

lemma storedContexts_queues [simp]:
  "storedContexts (repo\<lparr>mostRecentQueueSchedulingContextByExecutorByQueueP := m\<rparr>) = storedContexts repo"
  "storedContexts (repo\<lparr>mostRecentSuccessfulQueueSchedulingContextByExecutorByQueueP := m\<rparr>) = storedContexts repo"
  "storedContexts (repo\<lparr>mostRecentPreemptingQueueSchedulingContextByExecutorByQueueP := m\<rparr>) = storedContexts repo"
  by (simp_all add: storedContexts_def)

lemma storedContexts_executors [simp]:
  "storedContexts (repo\<lparr>executorIds := ids\<rparr>) = storedContexts repo"
  "storedContexts (repo\<lparr>sortedExecutorIdsP := xs\<rparr>) = storedContexts repo"
  by (simp_all add: storedContexts_def)

lemma storedContexts_Get [simp]:
  "storedContexts (snd (GetMostRecentJobSchedulingContextByExecutor repo jobId)) = storedContexts repo"
  by (simp add: GetMostRecentJobSchedulingContextByExecutor_def split: prod.splits option.splits)

lemma queueChildren_Lock:
  assumes "wellFormed sctx" and "mset qctxs = mset (map snd (fst (extractQueueAndJobContexts sctx)))"
  shows "queueChildren sctx \<subseteq> set qctxs"
proof -
  from assms have "mset qctxs = mset (map snd (QueueSchedulingContexts sctx))"
    by (simp add: extract_wellFormed)
  then have "set qctxs = set (map snd (QueueSchedulingContexts sctx))"
    by (rule mset_eq_setD)
  then show ?thesis by (simp add: queueChildren_def)
qed

lemma inv_q_writer:
  assumes "writer_step w repo = (w', repo')"
    and stored: "\<forall>sctx \<in> storedContexts repo. \<forall>q \<in> queueChildren sctx. queueFound repo q"
    and wq: "writer_inv_q repo w" and wm: "writer_inv_m repo w"
  shows "(\<forall>sctx \<in> storedContexts repo'. \<forall>q \<in> queueChildren sctx. queueFound repo' q)
         \<and> writer_inv_q repo' w' \<and> writer_inv_m repo' w'"
proof (cases "(w, repo)" rule: writer_step.cases)
  case (1 qctxs sctx repo)
  with assms show ?thesis by auto
next
  case (2 jctx jctxs qctxs sctx repo)
  with assms show ?thesis
    by (auto simp add: queueFound_foundIn split: if_splits prod.splits option.splits)
next
  case (3 jctx previous jctxs qctxs sctx repo)
  with assms show ?thesis by (auto simp add: queueFound_foundIn Let_def)
next
  case (4 jctx m jctxs qctxs sctx repo)
  with assms show ?thesis by (auto simp add: queueFound_foundIn)
next
  case (5 qctxs sctx repo0)
  show ?thesis
  proof (cases "addQueueSchedulingContextsLoop qctxs
             (mostRecentQueueSchedulingContextByExecutorByQueueP repo,
              mostRecentSuccessfulQueueSchedulingContextByExecutorByQueueP repo,
              mostRecentPreemptingQueueSchedulingContextByExecutorByQueueP repo)")
    case (Inl err)
    with 5 assms show ?thesis by auto
  next
    case (Inr maps)
    obtain a b c where maps: "maps = (a, b, c)" by (cases maps)
    note loop = loop_foundIn [OF Inr [unfolded maps]]
    from 5 Inr maps assms have r: "repo' = repo\<lparr>mostRecentQueueSchedulingContextByExecutorByQueueP := a\<rparr>"
      and w': "w' = QueuesStored1 b c sctx" by auto
    from 5 assms have ch: "queueChildren sctx \<subseteq> set qctxs" by auto
    have qf: "\<And>q. queueFound repo' q = foundIn a q" by (simp add: r queueFound_foundIn)
    have 1: "\<forall>sctx \<in> storedContexts repo'. \<forall>q \<in> queueChildren sctx. queueFound repo' q"
      using stored loop by (auto simp add: qf r queueFound_foundIn)
    have 2: "writer_inv_q repo' w'" using ch loop by (auto simp add: w' qf)
    from 1 2 show ?thesis by (simp add: w')
  qed
next
  case (6 b c sctx repo)
  with assms show ?thesis by (auto simp add: queueFound_foundIn)
next
  case (7 c sctx repo)
  with assms show ?thesis by (auto simp add: queueFound_foundIn)
next
  case (8 sctx repo0)
  have v: "\<And>m. snd ` set (AList.update (sctx_ExecutorId sctx) sctx m) \<subseteq> insert sctx (snd ` set m)"
    by (rule values_update_subset)
  from 8 assms have r: "repo' = repo\<lparr>mostRecentSchedulingContextByExecutorP :=
        AList.update (sctx_ExecutorId sctx) sctx (mostRecentSchedulingContextByExecutorP repo)\<rparr>"
    by auto
  have sub: "storedContexts repo' \<subseteq> insert sctx (storedContexts repo)"
    using v [of "mostRecentSchedulingContextByExecutorP repo"]
    by (auto simp add: r storedContexts_def)
  have qf: "\<And>q. queueFound repo' q = queueFound repo q"
    by (simp add: r queueFound_foundIn)
  from 8 assms have ch: "\<forall>q \<in> queueChildren sctx. queueFound repo q" by auto
  have 1: "\<forall>sctx \<in> storedContexts repo'. \<forall>q \<in> queueChildren sctx. queueFound repo' q"
    using sub stored ch unfolding qf by blast
  from 8 assms have w': "w' = ContextStored1
        (if \<not> IsZero (ScheduledResourcesByPriority sctx)
         then AList.update (sctx_ExecutorId sctx) sctx (mostRecentSuccessfulSchedulingContextByExecutorP repo)
         else mostRecentSuccessfulSchedulingContextByExecutorP repo)
        (if \<not> IsZero (EvictedResourcesByPriority sctx)
         then AList.update (sctx_ExecutorId sctx) sctx (mostRecentPreemptingSchedulingContextByExecutorP repo)
         else mostRecentPreemptingSchedulingContextByExecutorP repo)
        sctx" by auto
  have 2: "writer_inv_q repo' w'" using ch by (simp add: w' qf)
  have 3: "writer_inv_m repo' w'"
    using v [of "mostRecentSuccessfulSchedulingContextByExecutorP repo"]
      v [of "mostRecentPreemptingSchedulingContextByExecutorP repo"]
    by (auto simp add: w' r)
  from 1 2 3 show ?thesis by blast
next
  case (9 b c sctx repo0)
  from 9 assms have r: "repo' = repo\<lparr>mostRecentSuccessfulSchedulingContextByExecutorP := b\<rparr>"
    and w': "w' = ContextStored2 c sctx" by auto
  from 9 assms have b: "snd ` set b \<subseteq> insert sctx (snd ` set (mostRecentSuccessfulSchedulingContextByExecutorP repo))"
    and c: "snd ` set c \<subseteq> insert sctx (snd ` set (mostRecentPreemptingSchedulingContextByExecutorP repo))"
    and ch: "\<forall>q \<in> queueChildren sctx. queueFound repo q" by auto
  have sub: "storedContexts repo' \<subseteq> insert sctx (storedContexts repo)"
    using b by (auto simp add: r storedContexts_def)
  have qf: "\<And>q. queueFound repo' q = queueFound repo q"
    by (simp add: r queueFound_foundIn)
  have 1: "\<forall>sctx \<in> storedContexts repo'. \<forall>q \<in> queueChildren sctx. queueFound repo' q"
    using sub stored ch unfolding qf by blast
  have 2: "writer_inv_q repo' w'" using ch by (simp add: w' qf)
  have 3: "writer_inv_m repo' w'" using c by (simp add: w' r)
  from 1 2 3 show ?thesis by blast
next
  case (10 c sctx repo0)
  from 10 assms have r: "repo' = repo\<lparr>mostRecentPreemptingSchedulingContextByExecutorP := c\<rparr>"
    and w': "w' = AddingExecutorId sctx" by auto
  from 10 assms have c: "snd ` set c \<subseteq> insert sctx (snd ` set (mostRecentPreemptingSchedulingContextByExecutorP repo))"
    and ch: "\<forall>q \<in> queueChildren sctx. queueFound repo q" by auto
  have sub: "storedContexts repo' \<subseteq> insert sctx (storedContexts repo)"
    using c by (auto simp add: r storedContexts_def)
  have qf: "\<And>q. queueFound repo' q = queueFound repo q"
    by (simp add: r queueFound_foundIn)
  have 1: "\<forall>sctx \<in> storedContexts repo'. \<forall>q \<in> queueChildren sctx. queueFound repo' q"
    using sub stored ch unfolding qf by blast
  from 1 show ?thesis by (simp add: w')
next
  case (11 sctx repo)
  with assms show ?thesis
    by (auto simp add: queueFound_foundIn addExecutorId_def Let_def split: if_splits)
next
  case (12 err repo)
  with assms show ?thesis by auto
qed

lemma inv_q_step: "step J s s' \<Longrightarrow> inv_q s \<Longrightarrow> inv_q s'"
proof (induction rule: step.induct)
  case (Lock sctx jctxs qctxs repo)
  then show ?case by (simp add: inv_q_def queueChildren_Lock)
next
  case (Writer w repo w' repo')
  from inv_q_writer [OF Writer(2)] Writer(3) show ?case by (simp add: inv_q_def)
next
  case (Unlock repo err)
  then show ?case by (simp add: inv_q_def)
next
  case (ReaderGet repo w jobId)
  have qf: "\<And>q. queueFound (snd (GetMostRecentJobSchedulingContextByExecutor repo jobId)) q = queueFound repo q"
    by (simp add: queueFound_foundIn GetMostRecentJobSchedulingContextByExecutor_def split: prod.splits option.splits)
  have wq: "\<And>w. writer_inv_q (snd (GetMostRecentJobSchedulingContextByExecutor repo jobId)) w = writer_inv_q repo w"
    subgoal for w by (cases w) (simp_all add: qf)
    done
  have wm: "\<And>w. writer_inv_m (snd (GetMostRecentJobSchedulingContextByExecutor repo jobId)) w = writer_inv_m repo w"
    subgoal for w
      by (cases w) (simp_all add: GetMostRecentJobSchedulingContextByExecutor_def split: prod.splits option.splits)
    done
  from ReaderGet show ?case by (simp add: inv_q_def qf wq wm split: option.splits)
qed

lemma inv_q_init: "NewSchedulingContextRepository n = Inr repo \<Longrightarrow> inv_q (repo, None)"
  by (auto simp add: NewSchedulingContextRepository_def inv_q_def storedContexts_def split: sum.splits)

lemma inv_q_reachable: "reachable J s \<Longrightarrow> inv_q s"
  by (induction rule: reachable.induct) (auto intro: inv_q_init inv_q_step)

subsection \<open>The cache\<close>

lemma map_of_None_keys: "(map_of al k = None) = (k \<notin> fst ` set al)"
  by (simp add: map_of_eq_None_iff)

lemma keys_delete: "fst ` set (AList.delete k al) = fst ` set al - {k}"
  by (induction al) auto

lemma Peek_move_to_front:
  "map_of al k = Some v \<Longrightarrow> map_of ((k, v) # AList.delete k al) = map_of al"
  by (rule ext) (simp add: delete_conv')

lemma keys_move_to_front:
  "map_of al k = Some v' \<Longrightarrow> fst ` set ((k, v) # AList.delete k al) = fst ` set al"
  by (auto simp add: keys_delete dest: map_of_SomeD intro: rev_image_eqI)

lemma distinct_move_to_front:
  "distinct (map fst al) \<Longrightarrow> distinct (map fst ((k, v) # AList.delete k al))"
  by (simp add: distinct_delete keys_delete)

lemma Peek_Get: "lru_Peek k' (snd (lru_Get k c)) = lru_Peek k' c"
  by (simp add: lru_Peek_def lru_Get_def Peek_move_to_front split: option.splits)

lemma keys_Get: "fst ` set (lru_items (snd (lru_Get k c))) = fst ` set (lru_items c)"
  by (cases "map_of (lru_items c) k") (simp_all add: lru_Get_def keys_move_to_front del: list.set)

lemma distinct_Get:
  "distinct (map fst (lru_items c)) \<Longrightarrow> distinct (map fst (lru_items (snd (lru_Get k c))))"
  by (simp add: lru_Get_def distinct_move_to_front del: distinct.simps list.map split: option.splits)

lemma size_Get: "lru_size (snd (lru_Get k c)) = lru_size c"
  by (simp add: lru_Get_def split: option.splits)

lemma Peek_Add_stored:
  "lru_Peek k c = Some old \<Longrightarrow> lru_Peek k' (lru_Add k v c) = (if k' = k then Some v else lru_Peek k' c)"
  by (simp add: lru_Peek_def lru_Add_def delete_conv')

lemma keys_Add_stored:
  "lru_Peek k c = Some old \<Longrightarrow> fst ` set (lru_items (lru_Add k v c)) = fst ` set (lru_items c)"
  by (simp add: lru_Peek_def lru_Add_def keys_move_to_front del: list.set)

lemma distinct_Add_stored:
  "lru_Peek k c = Some old \<Longrightarrow> distinct (map fst (lru_items c)) \<Longrightarrow>
   distinct (map fst (lru_items (lru_Add k v c)))"
  by (simp add: lru_Peek_def lru_Add_def distinct_move_to_front del: distinct.simps list.map)

lemma size_Add: "lru_size (lru_Add k v c) = lru_size c"
  by (simp add: lru_Add_def Let_def split: option.splits)

lemma items_Add_new:
  "lru_Peek k c = None \<Longrightarrow> length (lru_items c) < lru_size c \<Longrightarrow>
   lru_items (lru_Add k v c) = (k, v) # lru_items c"
  by (simp add: lru_Peek_def lru_Add_def Let_def)

lemma room_for_new_key:
  assumes "distinct (map fst al)" and "fst ` set al \<subseteq> J" and "k \<in> J" and "k \<notin> fst ` set al"
    and "finite J" and "card J \<le> n"
  shows "length al < n"
proof -
  have "length al = card (fst ` set al)"
    using assms(1) by (metis distinct_card length_map set_map)
  also have "\<dots> < card (insert k (fst ` set al))"
    using assms(4) by simp
  also have "\<dots> \<le> card J"
    using assms(2,3,5) by (intro card_mono) auto
  finally show ?thesis using assms(6) by simp
qed

lemma Peek_write_in_place:
  "lru_Peek k' (lru_write_in_place k v c) =
     (if k' = k \<and> lru_Peek k c \<noteq> None then Some v else lru_Peek k' c)"
proof -
  have "map_of (map (\<lambda>(k', v'). if k' = k then (k', v) else (k', v')) al) k' =
          (if k' = k \<and> map_of al k \<noteq> None then Some v else map_of al k')" for al
    by (induction al) auto
  then show ?thesis by (simp add: lru_Peek_def lru_write_in_place_def)
qed

lemma keys_write_in_place: "map fst (lru_items (lru_write_in_place k v c)) = map fst (lru_items c)"
  by (auto simp add: lru_write_in_place_def)

lemma size_write_in_place: "lru_size (lru_write_in_place k v c) = lru_size c"
  by (simp add: lru_write_in_place_def)

subsection \<open>Job contexts\<close>

lemma cache_le_refl: "cache_le c c"
  by (simp add: cache_le_def)

lemma cache_le_Peek_eq: "(\<And>k. lru_Peek k c' = lru_Peek k c) \<Longrightarrow> cache_le c c'"
  by (simp add: cache_le_def)

lemma jobFound_cache_le:
  "cache_le (mostRecentJobSchedulingContextByExecutorByJobId repo)
     (mostRecentJobSchedulingContextByExecutorByJobId repo') \<Longrightarrow>
   jobFound repo j \<Longrightarrow> jobFound repo' j"
  by (fastforce simp add: cache_le_def jobFound_def split: option.splits)

lemma cache_inv_Get: "cache_inv J c \<Longrightarrow> cache_inv J (snd (lru_Get k c))"
  by (simp add: cache_inv_def keys_Get distinct_Get size_Get)

lemma cache_le_Get: "cache_le c (snd (lru_Get k c))"
  by (rule cache_le_Peek_eq) (rule Peek_Get)

text \<open>Adding a key the cache does not hold, when the keys all lie in a set no larger than the cache.\<close>

lemma Add_new:
  assumes inv: "cache_inv J c" and k: "k \<in> J" and new: "lru_Peek k c = None"
  shows "lru_items (lru_Add k v c) = (k, v) # lru_items c"
    and "cache_inv J (lru_Add k v c)"
    and "cache_le c (lru_Add k v c)"
    and "lru_Peek k (lru_Add k v c) = Some v"
proof -
  from new have fresh: "k \<notin> fst ` set (lru_items c)"
    by (simp add: lru_Peek_def map_of_None_keys)
  from inv have "length (lru_items c) < lru_size c"
    unfolding cache_inv_def using k fresh by (blast intro: room_for_new_key)
  from items_Add_new [OF new this] show items: "lru_items (lru_Add k v c) = (k, v) # lru_items c" .
  from inv k fresh show "cache_inv J (lru_Add k v c)"
    by (simp add: cache_inv_def items size_Add)
  show "cache_le c (lru_Add k v c)"
    using new by (auto simp add: cache_le_def lru_Peek_def items)
  show "lru_Peek k (lru_Add k v c) = Some v"
    by (simp add: lru_Peek_def items)
qed

lemma write_in_place_stored:
  assumes inv: "cache_inv J c" and old: "lru_Peek k c = Some previous"
  shows "cache_inv J (lru_write_in_place k (AList.update e x previous) c)"
    and "cache_le c (lru_write_in_place k (AList.update e x previous) c)"
    and "lru_Peek k (lru_write_in_place k (AList.update e x previous) c) = Some (AList.update e x previous)"
proof -
  have keys: "map fst (lru_items (lru_write_in_place k (AList.update e x previous) c)) = map fst (lru_items c)"
    by (rule keys_write_in_place)
  have "fst ` set (lru_items (lru_write_in_place k (AList.update e x previous) c)) = fst ` set (lru_items c)"
    using arg_cong [OF keys, of set] by simp
  with inv keys show "cache_inv J (lru_write_in_place k (AList.update e x previous) c)"
    by (simp add: cache_inv_def size_write_in_place)
  show "cache_le c (lru_write_in_place k (AList.update e x previous) c)"
    using old by (auto simp add: cache_le_def Peek_write_in_place hasKey_update)
  show "lru_Peek k (lru_write_in_place k (AList.update e x previous) c) = Some (AList.update e x previous)"
    using old by (simp add: Peek_write_in_place)
qed

lemma Add_same:
  assumes inv: "cache_inv J c" and old: "lru_Peek k c = Some m"
  shows "cache_inv J (lru_Add k m c)" and "cache_le c (lru_Add k m c)"
proof -
  from inv old show "cache_inv J (lru_Add k m c)"
    by (simp add: cache_inv_def keys_Add_stored distinct_Add_stored size_Add)
  show "cache_le c (lru_Add k m c)"
    using old by (intro cache_le_Peek_eq) (simp add: Peek_Add_stored)
qed

lemma storedContexts_writer:
  assumes step: "writer_step w repo = (w', repo')" and wm: "writer_inv_m repo w"
  shows "storedContexts repo' \<subseteq> storedContexts repo \<union> storing w"
proof (cases "(w, repo)" rule: writer_step.cases)
  case (8 sctx repo0)
  have v: "snd ` set (AList.update (sctx_ExecutorId sctx) sctx (mostRecentSchedulingContextByExecutorP repo))
          \<subseteq> insert sctx (snd ` set (mostRecentSchedulingContextByExecutorP repo))"
    by (rule values_update_subset)
  from 8 step have r: "repo' = repo\<lparr>mostRecentSchedulingContextByExecutorP :=
        AList.update (sctx_ExecutorId sctx) sctx (mostRecentSchedulingContextByExecutorP repo)\<rparr>"
    and w: "w = StoringContext sctx" by auto
  show ?thesis using v unfolding r w storedContexts_def by (simp add: image_Un) blast
next
  case (9 b c sctx repo0)
  from 9 step have r: "repo' = repo\<lparr>mostRecentSuccessfulSchedulingContextByExecutorP := b\<rparr>"
    and w: "w = ContextStored1 b c sctx" by auto
  from wm have "snd ` set b \<subseteq> insert sctx (snd ` set (mostRecentSuccessfulSchedulingContextByExecutorP repo))"
    by (simp add: w)
  then show ?thesis unfolding r w storedContexts_def by (simp add: image_Un) blast
next
  case (10 c sctx repo0)
  from 10 step have r: "repo' = repo\<lparr>mostRecentPreemptingSchedulingContextByExecutorP := c\<rparr>"
    and w: "w = ContextStored2 c sctx" by auto
  from wm have "snd ` set c \<subseteq> insert sctx (snd ` set (mostRecentPreemptingSchedulingContextByExecutorP repo))"
    by (simp add: w)
  then show ?thesis unfolding r w storedContexts_def by (simp add: image_Un) blast
next
  case (11 sctx repo0)
  with step show ?thesis by (auto simp add: addExecutorId_def Let_def split: if_splits)
next
  case (1 qctxs sctx repo0)
  with step show ?thesis by auto
next
  case (2 jctx jctxs qctxs sctx repo0)
  with step show ?thesis by (auto split: if_splits prod.splits option.splits)
next
  case (3 jctx previous jctxs qctxs sctx repo0)
  with step show ?thesis by (auto simp add: Let_def)
next
  case (4 jctx m jctxs qctxs sctx repo0)
  with step show ?thesis by auto
next
  case (5 qctxs sctx repo0)
  with step show ?thesis by (auto split: sum.splits)
next
  case (6 b c sctx repo0)
  with step show ?thesis by auto
next
  case (7 c sctx repo0)
  with step show ?thesis by auto
next
  case (12 err repo0)
  with step show ?thesis by auto
qed

lemma jobFound_cache_eq:
  "jobCache repo' = jobCache repo \<Longrightarrow> jobFound repo' j = jobFound repo j"
  by (simp add: jobFound_def)

lemma writer_inv_j_cache_eq:
  "jobCache repo' = jobCache repo \<Longrightarrow> writer_inv_j J repo' w = writer_inv_j J repo w"
  by (cases w) (simp_all add: jobFound_def)

text \<open>What one step of a writer does to the cache and to what the writer still owes.\<close>

lemma cache_writer:
  assumes step: "writer_step w repo = (w', repo')"
    and inv: "cache_inv J (jobCache repo)"
    and wj: "writer_inv_j J repo w"
  shows "cache_inv J (jobCache repo') \<and> cache_le (jobCache repo) (jobCache repo') \<and> writer_inv_j J repo' w'"
proof (cases "(w, repo)" rule: writer_step.cases)
  case (2 jctx jctxs qctxs sctx repo0)
  let ?k = "jctx_JobId jctx" and ?e = "jctx_ExecutorId jctx"
  from 2 have w: "w = AddingJobs (jctx # jctxs) qctxs sctx" by simp
  from wj have owed: "\<forall>j \<in> jobChildren sctx. j = jctx \<or> j \<in> set jctxs \<or> jobFound repo j"
    and kJ: "?k \<in> J" and rest: "jctx_JobId ` set jctxs \<subseteq> J" by (auto simp add: w)
  show ?thesis
  proof (cases "?e = [] \<or> ?k = []")
    case True
    with step have "repo' = repo" and "\<exists>err. w' = Returned err"
      by (auto simp add: w split: if_splits)
    with inv show ?thesis by (auto simp add: cache_le_refl)
  next
    case False
    show ?thesis
    proof (cases "lru_Peek ?k (jobCache repo)")
      case None
      from step False None have r: "repo' = repo\<lparr>mostRecentJobSchedulingContextByExecutorByJobId :=
            lru_Add ?k [(?e, jctx)] (jobCache repo)\<rparr>" and w': "w' = AddingJobs jctxs qctxs sctx"
        by (auto simp add: w lru_PeekOrAdd_def)
      note add = Add_new [OF inv kJ None, of "[(?e, jctx)]"]
      have found: "jobFound repo' jctx"
        by (simp add: jobFound_def r add(4) hasKey_def)
      have mono: "\<And>j. jobFound repo j \<Longrightarrow> jobFound repo' j"
        by (rule jobFound_cache_le [of repo repo']) (simp_all add: r add(3))
      from owed found mono have "\<forall>j \<in> jobChildren sctx. j \<in> set jctxs \<or> jobFound repo' j" by metis
      with rest add show ?thesis by (simp add: w' r)
    next
      case (Some previous)
      from step False Some have r: "repo' = repo\<lparr>mostRecentJobSchedulingContextByExecutorByJobId := jobCache repo\<rparr>"
        and w': "w' = JobPeeked jctx previous jctxs qctxs sctx"
        by (auto simp add: w lru_PeekOrAdd_def)
      from owed rest Some inv show ?thesis
        by (simp add: w' r cache_le_refl jobFound_def)
    qed
  qed
next
  case (3 jctx previous jctxs qctxs sctx repo0)
  let ?k = "jctx_JobId jctx" and ?e = "jctx_ExecutorId jctx"
  from 3 have w: "w = JobPeeked jctx previous jctxs qctxs sctx" by simp
  from wj have owed: "\<forall>j \<in> jobChildren sctx. j = jctx \<or> j \<in> set jctxs \<or> jobFound repo j"
    and rest: "jctx_JobId ` set jctxs \<subseteq> J" and old: "lru_Peek ?k (jobCache repo) = Some previous"
    by (auto simp add: w)
  from step have r: "repo' = repo\<lparr>mostRecentJobSchedulingContextByExecutorByJobId :=
        lru_write_in_place ?k (AList.update ?e jctx previous) (jobCache repo)\<rparr>"
    and w': "w' = JobWritten jctx (AList.update ?e jctx previous) jctxs qctxs sctx"
    by (auto simp add: w Let_def)
  note wr = write_in_place_stored [OF inv old, of ?e jctx]
  have found: "jobFound repo' jctx"
    by (simp add: jobFound_def r wr(3) hasKey_update)
  have mono: "\<And>j. jobFound repo j \<Longrightarrow> jobFound repo' j"
    by (rule jobFound_cache_le [of repo repo']) (simp_all add: r wr(2))
  from owed found mono have "\<forall>j \<in> jobChildren sctx. j \<in> set jctxs \<or> jobFound repo' j" by metis
  with rest wr show ?thesis by (simp add: w' r)
next
  case (4 jctx m jctxs qctxs sctx repo0)
  let ?k = "jctx_JobId jctx"
  from 4 have w: "w = JobWritten jctx m jctxs qctxs sctx" by simp
  from wj have owed: "\<forall>j \<in> jobChildren sctx. j \<in> set jctxs \<or> jobFound repo j"
    and rest: "jctx_JobId ` set jctxs \<subseteq> J" and old: "lru_Peek ?k (jobCache repo) = Some m"
    by (auto simp add: w)
  from step have r: "repo' = repo\<lparr>mostRecentJobSchedulingContextByExecutorByJobId := lru_Add ?k m (jobCache repo)\<rparr>"
    and w': "w' = AddingJobs jctxs qctxs sctx"
    by (auto simp add: w)
  note add = Add_same [OF inv old]
  have mono: "\<And>j. jobFound repo j \<Longrightarrow> jobFound repo' j"
    by (rule jobFound_cache_le [of repo repo']) (simp_all add: r add(2))
  from owed mono have "\<forall>j \<in> jobChildren sctx. j \<in> set jctxs \<or> jobFound repo' j" by metis
  with rest add show ?thesis by (simp add: w' r)
next
  case (5 qctxs sctx repo0)
  from 5 step have c: "jobCache repo' = jobCache repo" by (auto split: sum.splits)
  from 5 step wj have "writer_inv_j J repo w'" by (auto split: sum.splits)
  with c inv show ?thesis by (simp add: cache_le_refl writer_inv_j_cache_eq [OF c])
next
  case (11 sctx repo0)
  from 11 step have c: "jobCache repo' = jobCache repo"
    by (auto simp add: addExecutorId_def Let_def split: if_splits)
  from 11 step have "writer_inv_j J repo w'" by (auto split: prod.splits)
  with c inv show ?thesis by (simp add: cache_le_refl writer_inv_j_cache_eq [OF c])
next
  case (1 qctxs sctx repo0)
  from 1 step have c: "jobCache repo' = jobCache repo" by auto
  from 1 step wj have "writer_inv_j J repo w'" by auto
  with c inv show ?thesis by (simp add: cache_le_refl writer_inv_j_cache_eq [OF c])
next
  case (6 b c sctx repo0)
  from 6 step have c: "jobCache repo' = jobCache repo" by auto
  from 6 step wj have "writer_inv_j J repo w'" by auto
  with c inv show ?thesis by (simp add: cache_le_refl writer_inv_j_cache_eq [OF c])
next
  case (7 c sctx repo0)
  from 7 step have c: "jobCache repo' = jobCache repo" by auto
  from 7 step wj have "writer_inv_j J repo w'" by auto
  with c inv show ?thesis by (simp add: cache_le_refl writer_inv_j_cache_eq [OF c])
next
  case (8 sctx repo0)
  from 8 step have c: "jobCache repo' = jobCache repo" by auto
  from 8 step wj have "writer_inv_j J repo w'" by auto
  with c inv show ?thesis by (simp add: cache_le_refl writer_inv_j_cache_eq [OF c])
next
  case (9 b c sctx repo0)
  from 9 step have c: "jobCache repo' = jobCache repo" by auto
  from 9 step wj have "writer_inv_j J repo w'" by auto
  with c inv show ?thesis by (simp add: cache_le_refl writer_inv_j_cache_eq [OF c])
next
  case (10 c sctx repo0)
  from 10 step have c: "jobCache repo' = jobCache repo" by auto
  from 10 step wj have "writer_inv_j J repo w'" by auto
  with c inv show ?thesis by (simp add: cache_le_refl writer_inv_j_cache_eq [OF c])
next
  case (12 err repo0)
  with step inv wj show ?thesis by (auto simp add: cache_le_refl)
qed

lemma jobChildren_Lock:
  assumes "wellFormed sctx" and "mset jctxs = mset (map snd (snd (extractQueueAndJobContexts sctx)))"
  shows "set jctxs = jobChildren sctx"
proof -
  from assms have "mset jctxs = mset (map snd (jobEntries sctx))"
    by (simp add: extract_wellFormed)
  then have "set jctxs = set (map snd (jobEntries sctx))"
    by (rule mset_eq_setD)
  then show ?thesis by (simp add: jobChildren_def)
qed

lemma jobCache_Get:
  "jobCache (snd (GetMostRecentJobSchedulingContextByExecutor repo jobId)) = snd (lru_Get jobId (jobCache repo))"
  by (simp add: GetMostRecentJobSchedulingContextByExecutor_def lru_Get_def split: option.splits)

lemma jobFound_Get:
  "jobFound (snd (GetMostRecentJobSchedulingContextByExecutor repo jobId)) j = jobFound repo j"
  by (simp add: jobFound_def jobCache_Get Peek_Get)

lemma writer_inv_j_Get:
  "writer_inv_j J (snd (GetMostRecentJobSchedulingContextByExecutor repo jobId)) w = writer_inv_j J repo w"
  by (cases w) (simp_all add: jobFound_Get jobCache_Get Peek_Get)

lemma inv_j_step:
  assumes "step J s s'" and "inv_q s" and "inv_j J s"
  shows "inv_j J s' \<and> (\<forall>j. jobFound (fst s) j \<longrightarrow> jobFound (fst s') j)"
  using assms
proof (induction rule: step.induct)
  case (Lock sctx jctxs qctxs repo)
  from jobChildren_Lock [OF Lock(1,3)] Lock(2,6) show ?case
    by (simp add: inv_j_def)
next
  case (Writer w repo w' repo')
  from Writer(4) have inv: "cache_inv J (jobCache repo)"
    and stored: "\<forall>sctx \<in> storedContexts repo. \<forall>j \<in> jobChildren sctx. jobFound repo j"
    and wj: "writer_inv_j J repo w" by (simp_all add: inv_j_def)
  from Writer(3) have wm: "writer_inv_m repo w" by (simp add: inv_q_def)
  from cache_writer [OF Writer(2) inv wj] have inv': "cache_inv J (jobCache repo')"
    and le: "cache_le (jobCache repo) (jobCache repo')" and wj': "writer_inv_j J repo' w'" by simp_all
  have mono: "\<And>j. jobFound repo j \<Longrightarrow> jobFound repo' j"
    by (rule jobFound_cache_le [OF le])
  have own: "\<forall>sctx \<in> storing w. \<forall>j \<in> jobChildren sctx. jobFound repo j"
    using wj by (cases w) simp_all
  have "\<forall>sctx \<in> storedContexts repo'. \<forall>j \<in> jobChildren sctx. jobFound repo' j"
    using storedContexts_writer [OF Writer(2) wm] stored own mono by (meson UnE subsetD)
  with inv' wj' mono show ?case by (simp add: inv_j_def)
next
  case (Unlock repo err)
  then show ?case by (simp add: inv_j_def)
next
  case (ReaderGet repo w jobId)
  then show ?case
    by (simp add: inv_j_def jobFound_Get writer_inv_j_Get jobCache_Get cache_inv_Get split: option.splits)
qed

lemma size_writer:
  "writer_step w repo = (w', repo') \<Longrightarrow> lru_size (jobCache repo') = lru_size (jobCache repo)"
  by (cases "(w, repo)" rule: writer_step.cases)
     (auto simp add: lru_PeekOrAdd_def size_Add size_write_in_place addExecutorId_def Let_def
        split: if_splits option.splits sum.splits)

lemma size_step: "step J s s' \<Longrightarrow> lru_size (jobCache (fst s')) = lru_size (jobCache (fst s))"
  by (induction rule: step.induct) (simp_all add: size_writer jobCache_Get size_Get)

lemma inv_j_init:
  "NewSchedulingContextRepository n = Inr repo \<Longrightarrow> finite J \<Longrightarrow> card J \<le> lru_size (jobCache repo) \<Longrightarrow>
   inv_j J (repo, None)"
  by (auto simp add: NewSchedulingContextRepository_def lru_New_def inv_j_def cache_inv_def storedContexts_def
      split: sum.splits if_splits)

lemma inv_j_reachable:
  "reachable J s \<Longrightarrow> finite J \<Longrightarrow> card J \<le> lru_size (jobCache (fst s)) \<Longrightarrow> inv_j J s"
proof (induction rule: reachable.induct)
  case (Init n repo)
  then show ?case by (simp add: inv_j_init)
next
  case (Step s s')
  from Step(2,5) have "card J \<le> lru_size (jobCache (fst s))" by (simp add: size_step)
  with Step have "inv_j J s" by simp
  with inv_j_step [OF Step(2) inv_q_reachable [OF Step(1)]] show ?case by simp
qed

lemma reachable_steps: "(step J)\<^sup>*\<^sup>* s s' \<Longrightarrow> reachable J s \<Longrightarrow> reachable J s'"
  by (induction rule: rtranclp_induct) (auto intro: reachable.Step)

lemma queueFound_steps: "(step J)\<^sup>*\<^sup>* s s' \<Longrightarrow> queueFound (fst s) q \<Longrightarrow> queueFound (fst s') q"
  by (induction rule: rtranclp_induct) (auto intro: queueFound_step)

lemma jobFound_steps:
  assumes "(step J)\<^sup>*\<^sup>* s s'" and "inv_q s" and "inv_j J s" and "jobFound (fst s) j"
  shows "inv_q s' \<and> inv_j J s' \<and> jobFound (fst s') j"
  using assms
proof (induction rule: rtranclp_induct)
  case base
  then show ?case by simp
next
  case (step y z)
  then have y: "inv_q y" "inv_j J y" "jobFound (fst y) j" by simp_all
  from inv_q_step [OF step(2) y(1)] inv_j_step [OF step(2) y(1,2)] y(3) show ?case by simp
qed

lemma writer_stepI:
  "writer_step w repo = (w', repo') \<Longrightarrow> \<forall>err. w \<noteq> Returned err \<Longrightarrow> (step J)\<^sup>*\<^sup>* (repo, Some w) (repo', Some w')"
  by (rule r_into_rtranclp) (rule step.Writer)

text \<open>The loop over the job contexts, as steps of the writer.\<close>

lemma jobs_run:
  "(step J)\<^sup>*\<^sup>* (repo, Some (AddingJobs jctxs qctxs sctx))
     (case addJobSchedulingContexts repo jctxs of
        (Some err, repo') \<Rightarrow> (repo', Some (Returned (Some err)))
      | (None, repo') \<Rightarrow> (repo', Some (StoringQueues qctxs sctx)))"
proof (induction jctxs arbitrary: repo)
  case Nil
  show ?case by (simp add: writer_stepI)
next
  case (Cons jctx jctxs)
  let ?k = "jctx_JobId jctx" and ?e = "jctx_ExecutorId jctx"
  show ?case
  proof (cases "?e = [] \<or> ?k = []")
    case True
    then show ?thesis
      by (auto simp add: addJobSchedulingContext_def intro!: writer_stepI)
  next
    case False
    show ?thesis
    proof (cases "lru_Peek ?k (jobCache repo)")
      case None
      let ?repo1 = "repo\<lparr>mostRecentJobSchedulingContextByExecutorByJobId := lru_Add ?k [(?e, jctx)] (jobCache repo)\<rparr>"
      from False None have f: "addJobSchedulingContext repo jctx = (None, ?repo1)"
        by (simp add: addJobSchedulingContext_def lru_PeekOrAdd_def)
      from False None have "(step J)\<^sup>*\<^sup>* (repo, Some (AddingJobs (jctx # jctxs) qctxs sctx))
          (?repo1, Some (AddingJobs jctxs qctxs sctx))"
        by (intro writer_stepI) (simp_all add: lru_PeekOrAdd_def)
      then have 1: "(step J)\<^sup>*\<^sup>* (repo, Some (AddingJobs (jctx # jctxs) qctxs sctx))
          (?repo1, Some (AddingJobs jctxs qctxs sctx))" .
      from Cons.IH [of ?repo1] have 2: "(step J)\<^sup>*\<^sup>* (?repo1, Some (AddingJobs jctxs qctxs sctx))
          (case addJobSchedulingContexts repo (jctx # jctxs) of
             (Some err, repo') \<Rightarrow> (repo', Some (Returned (Some err)))
           | (None, repo') \<Rightarrow> (repo', Some (StoringQueues qctxs sctx)))"
        by (simp add: f)
      from 1 2 show ?thesis by (rule rtranclp_trans)
    next
      case (Some previous)
      let ?m = "AList.update ?e jctx previous"
      let ?repo2 = "repo\<lparr>mostRecentJobSchedulingContextByExecutorByJobId := lru_write_in_place ?k ?m (jobCache repo)\<rparr>"
      let ?repo3 = "repo\<lparr>mostRecentJobSchedulingContextByExecutorByJobId :=
                      lru_Add ?k ?m (lru_write_in_place ?k ?m (jobCache repo))\<rparr>"
      from False Some have f: "addJobSchedulingContext repo jctx = (None, ?repo3)"
        by (simp add: addJobSchedulingContext_def lru_PeekOrAdd_def Let_def)
      from False Some have 1: "(step J)\<^sup>*\<^sup>* (repo, Some (AddingJobs (jctx # jctxs) qctxs sctx))
          (repo, Some (JobPeeked jctx previous jctxs qctxs sctx))"
        by (intro writer_stepI) (simp_all add: lru_PeekOrAdd_def)
      have 2: "(step J)\<^sup>*\<^sup>* (repo, Some (JobPeeked jctx previous jctxs qctxs sctx))
          (?repo2, Some (JobWritten jctx ?m jctxs qctxs sctx))"
        by (intro writer_stepI) (simp_all add: Let_def)
      have 3: "(step J)\<^sup>*\<^sup>* (?repo2, Some (JobWritten jctx ?m jctxs qctxs sctx))
          (?repo3, Some (AddingJobs jctxs qctxs sctx))"
        by (intro writer_stepI) simp_all
      from Cons.IH [of ?repo3] have 4: "(step J)\<^sup>*\<^sup>* (?repo3, Some (AddingJobs jctxs qctxs sctx))
          (case addJobSchedulingContexts repo (jctx # jctxs) of
             (Some err, repo') \<Rightarrow> (repo', Some (Returned (Some err)))
           | (None, repo') \<Rightarrow> (repo', Some (StoringQueues qctxs sctx)))"
        by (simp add: f)
      show ?thesis
        by (rule rtranclp_trans [OF 1 rtranclp_trans [OF 2 rtranclp_trans [OF 3 4]]])
    qed
  qed
qed

text \<open>The stores of the queue contexts, of the scheduling context and of the executor id.\<close>

lemma stores_run:
  "(step J)\<^sup>*\<^sup>* (repo, Some (StoringQueues qctxs sctx))
     (case addQueueSchedulingContexts repo qctxs of
        (Some err, repo2) \<Rightarrow> (repo2, Some (Returned (Some err)))
      | (None, repo2) \<Rightarrow>
          (case addSchedulingContext repo2 sctx of
             (Some err, repo3) \<Rightarrow> (repo3, Some (Returned (Some err)))
           | (None, repo3) \<Rightarrow>
               (case addExecutorId repo3 (sctx_ExecutorId sctx) of
                  (err, repo4) \<Rightarrow> (repo4, Some (Returned err)))))"
proof (cases "addQueueSchedulingContextsLoop qctxs
             (mostRecentQueueSchedulingContextByExecutorByQueueP repo,
              mostRecentSuccessfulQueueSchedulingContextByExecutorByQueueP repo,
              mostRecentPreemptingQueueSchedulingContextByExecutorByQueueP repo)")
  case (Inl err)
  then show ?thesis
    by (auto simp add: addQueueSchedulingContexts_def intro!: writer_stepI)
next
  case (Inr maps)
  obtain a b c where maps: "maps = (a, b, c)" by (cases maps)
  let ?r1 = "repo\<lparr>mostRecentQueueSchedulingContextByExecutorByQueueP := a\<rparr>"
  let ?r2 = "?r1\<lparr>mostRecentSuccessfulQueueSchedulingContextByExecutorByQueueP := b\<rparr>"
  let ?r3 = "?r2\<lparr>mostRecentPreemptingQueueSchedulingContextByExecutorByQueueP := c\<rparr>"
  let ?b' = "(if \<not> IsZero (ScheduledResourcesByPriority sctx)
         then AList.update (sctx_ExecutorId sctx) sctx (mostRecentSuccessfulSchedulingContextByExecutorP repo)
         else mostRecentSuccessfulSchedulingContextByExecutorP repo)"
  let ?c' = "(if \<not> IsZero (EvictedResourcesByPriority sctx)
         then AList.update (sctx_ExecutorId sctx) sctx (mostRecentPreemptingSchedulingContextByExecutorP repo)
         else mostRecentPreemptingSchedulingContextByExecutorP repo)"
  let ?r4 = "?r3\<lparr>mostRecentSchedulingContextByExecutorP :=
        AList.update (sctx_ExecutorId sctx) sctx (mostRecentSchedulingContextByExecutorP repo)\<rparr>"
  let ?r5 = "?r4\<lparr>mostRecentSuccessfulSchedulingContextByExecutorP := ?b'\<rparr>"
  let ?r6 = "?r5\<lparr>mostRecentPreemptingSchedulingContextByExecutorP := ?c'\<rparr>"
  from Inr maps have q: "addQueueSchedulingContexts repo qctxs = (None, ?r3)"
    by (simp add: addQueueSchedulingContexts_def)
  have s: "addSchedulingContext ?r3 sctx = (None, ?r6)"
    by (simp add: addSchedulingContext_def Let_def)
  from Inr maps have 1: "(step J)\<^sup>*\<^sup>* (repo, Some (StoringQueues qctxs sctx)) (?r1, Some (QueuesStored1 b c sctx))"
    by (intro writer_stepI) simp_all
  have 2: "(step J)\<^sup>*\<^sup>* (?r1, Some (QueuesStored1 b c sctx)) (?r2, Some (QueuesStored2 c sctx))"
    by (intro writer_stepI) simp_all
  have 3: "(step J)\<^sup>*\<^sup>* (?r2, Some (QueuesStored2 c sctx)) (?r3, Some (StoringContext sctx))"
    by (intro writer_stepI) simp_all
  have 4: "(step J)\<^sup>*\<^sup>* (?r3, Some (StoringContext sctx)) (?r4, Some (ContextStored1 ?b' ?c' sctx))"
    by (intro writer_stepI) simp_all
  have 5: "(step J)\<^sup>*\<^sup>* (?r4, Some (ContextStored1 ?b' ?c' sctx)) (?r5, Some (ContextStored2 ?c' sctx))"
    by (intro writer_stepI) simp_all
  have 6: "(step J)\<^sup>*\<^sup>* (?r5, Some (ContextStored2 ?c' sctx)) (?r6, Some (AddingExecutorId sctx))"
    by (intro writer_stepI) simp_all
  obtain err4 repo4 where x: "addExecutorId ?r6 (sctx_ExecutorId sctx) = (err4, repo4)"
    by (cases "addExecutorId ?r6 (sctx_ExecutorId sctx)")
  have 7: "(step J)\<^sup>*\<^sup>* (?r6, Some (AddingExecutorId sctx)) (repo4, Some (Returned err4))"
    by (intro writer_stepI) (simp_all add: x)
  have "(step J)\<^sup>*\<^sup>* (repo, Some (StoringQueues qctxs sctx)) (repo4, Some (Returned err4))"
    by (rule rtranclp_trans [OF 1 rtranclp_trans [OF 2 rtranclp_trans [OF 3
          rtranclp_trans [OF 4 rtranclp_trans [OF 5 rtranclp_trans [OF 6 7]]]]]])
  then show ?thesis by (simp only: q s x prod.case option.case)
qed

text \<open>A call of \<open>AddSchedulingContext\<close> that nothing interrupts is a run of the system.\<close>

lemma AddSchedulingContext_run:
  assumes wf: "wellFormed sctx" and J: "jctx_JobId ` jobChildren sctx \<subseteq> J"
    and rj: "mset (range_jobs e (snd (extractQueueAndJobContexts sctx))) = mset (snd (extractQueueAndJobContexts sctx))"
    and rq: "mset (range_queues e (fst (extractQueueAndJobContexts sctx))) = mset (fst (extractQueueAndJobContexts sctx))"
  shows "(step J)\<^sup>*\<^sup>* (repo, None) (snd (AddSchedulingContext e repo sctx), None)"
proof -
  let ?js = "map snd (range_jobs e (snd (extractQueueAndJobContexts sctx)))"
  let ?qs = "map snd (range_queues e (fst (extractQueueAndJobContexts sctx)))"
  have "mset ?js = mset (map snd (snd (extractQueueAndJobContexts sctx)))"
    using rj by (metis mset_map)
  moreover have "mset ?qs = mset (map snd (fst (extractQueueAndJobContexts sctx)))"
    using rq by (metis mset_map)
  ultimately have lock: "step J (repo, None) (repo, Some (AddingJobs ?js ?qs sctx))"
    using wf J by (intro step.Lock)
  obtain err repo' where res: "AddSchedulingContext e repo sctx = (err, repo')"
    by (cases "AddSchedulingContext e repo sctx")
  have run: "(step J)\<^sup>*\<^sup>* (repo, Some (AddingJobs ?js ?qs sctx)) (repo', Some (Returned err))"
  proof (cases "addJobSchedulingContexts repo ?js")
    case (Pair err1 repo1)
    show ?thesis
    proof (cases err1)
      case (Some x)
      with Pair res have "repo' = repo1" "err = Some x"
        by (simp_all add: AddSchedulingContext_def split: prod.splits)
      with jobs_run [of J repo ?js ?qs sctx] Pair Some show ?thesis by simp
    next
      case None
      with jobs_run [of J repo ?js ?qs sctx] Pair
      have 1: "(step J)\<^sup>*\<^sup>* (repo, Some (AddingJobs ?js ?qs sctx)) (repo1, Some (StoringQueues ?qs sctx))"
        by simp
      from Pair None res have "(case addQueueSchedulingContexts repo1 ?qs of
        (Some err, repo2) \<Rightarrow> (repo2, Some (Returned (Some err)))
      | (None, repo2) \<Rightarrow>
          (case addSchedulingContext repo2 sctx of
             (Some err, repo3) \<Rightarrow> (repo3, Some (Returned (Some err)))
           | (None, repo3) \<Rightarrow>
               (case addExecutorId repo3 (sctx_ExecutorId sctx) of
                  (err, repo4) \<Rightarrow> (repo4, Some (Returned err))))) = (repo', Some (Returned err))"
        by (auto simp add: AddSchedulingContext_def split: prod.splits option.splits)
      with stores_run [of J repo1 ?qs sctx]
      have 2: "(step J)\<^sup>*\<^sup>* (repo1, Some (StoringQueues ?qs sctx)) (repo', Some (Returned err))"
        by simp
      from 1 2 show ?thesis by (rule rtranclp_trans)
    qed
  qed
  have unlock: "step J (repo', Some (Returned err)) (repo', None)" by (rule step.Unlock)
  from lock have 1: "(step J)\<^sup>*\<^sup>* (repo, None) (repo, Some (AddingJobs ?js ?qs sctx))" by (rule r_into_rtranclp)
  from unlock have 3: "(step J)\<^sup>*\<^sup>* (repo', Some (Returned err)) (repo', None)" by (rule r_into_rtranclp)
  have "(step J)\<^sup>*\<^sup>* (repo, None) (repo', None)"
    by (rule rtranclp_trans [OF 1 rtranclp_trans [OF run 3]])
  then show ?thesis by (simp add: res)
qed

lemmas example_defs = AddSchedulingContext_def exampleEnv_def
      emptyRepository_def exampleContext_def exampleQueue_def exampleJob_def extractQueueAndJobContexts_def
      addJobSchedulingContext_def lru_PeekOrAdd_def lru_Peek_def lru_Add_def addQueueSchedulingContexts_def
      storeByQueueAndExecutor_def addSchedulingContext_def addExecutorId_def IsZero_def
      ResourceList_IsZero_def Let_def

lemma emptyRepository_New:
  "NewSchedulingContextRepository 1 = Inr (emptyRepository 1)"
  "NewSchedulingContextRepository 10 = Inr (emptyRepository 10)"
  by (simp_all add: NewSchedulingContextRepository_def lru_New_def emptyRepository_def)

lemma exampleContext_wellFormed: "distinct jobIds \<Longrightarrow> wellFormed (exampleContext jobIds)"
  by (simp add: wellFormed_def jobEntries_def exampleContext_def exampleQueue_def comp_def distinct_map inj_on_def)

lemma exampleEnv_ranges: "range_jobs exampleEnv m = m" "range_queues exampleEnv m' = m'"
  by (simp_all add: exampleEnv_def)

lemma example_reachable:
  "distinct jobIds \<Longrightarrow> set jobIds \<subseteq> J \<Longrightarrow> NewSchedulingContextRepository n = Inr repo \<Longrightarrow>
   reachable J (snd (AddSchedulingContext exampleEnv repo (exampleContext jobIds)), None)"
proof -
  assume d: "distinct jobIds" and J: "set jobIds \<subseteq> J" and n: "NewSchedulingContextRepository n = Inr repo"
  have ids: "jctx_JobId ` jobChildren (exampleContext jobIds) \<subseteq> J"
    using J by (auto simp add: jobChildren_def jobEntries_def exampleContext_def exampleQueue_def exampleJob_def)
  have "(step J)\<^sup>*\<^sup>* (repo, None) (snd (AddSchedulingContext exampleEnv repo (exampleContext jobIds)), None)"
    by (rule AddSchedulingContext_run [OF exampleContext_wellFormed [OF d] ids])
       (simp_all add: exampleEnv_ranges)
  then show ?thesis using reachable.Init [OF n] by (rule reachable_steps)
qed

section \<open>The claims about reports\<close>

lemma exampleRepository_sortedExecutorIds: "sortedExecutorIdsP exampleRepository = [''executor'']"
  by (simp add: exampleRepository_def AddSchedulingContext_def exampleEnv_def
      emptyRepository_def exampleContext_def exampleQueue_def exampleJob_def extractQueueAndJobContexts_def
      addJobSchedulingContext_def lru_PeekOrAdd_def lru_Peek_def lru_Add_def addQueueSchedulingContexts_def
      storeByQueueAndExecutor_def addSchedulingContext_def addExecutorId_def IsZero_def
      ResourceList_IsZero_def Let_def trimAscii_def asciiSpace_def)

lemma exampleRepository_no_queue_B: "noStoredQueueContexts exampleRepository (TrimSpace exampleEnv '' B '')"
  by (simp add: noStoredQueueContexts_def exampleRepository_def AddSchedulingContext_def exampleEnv_def
      emptyRepository_def exampleContext_def exampleQueue_def exampleJob_def extractQueueAndJobContexts_def
      addJobSchedulingContext_def lru_PeekOrAdd_def lru_Peek_def lru_Add_def addQueueSchedulingContexts_def
      storeByQueueAndExecutor_def addSchedulingContext_def addExecutorId_def IsZero_def
      ResourceList_IsZero_def Let_def trimAscii_def asciiSpace_def)

lemma exampleRepository_no_other_job:
  "noStoredJobContexts exampleRepository (TrimSpace exampleEnv '' 01h3w6kzvm4ew0pq5t8fbmd4p0 '')"
  by (simp add: noStoredJobContexts_def storedQueueContexts_def holdsJob_def hasKey_def exampleRepository_def AddSchedulingContext_def exampleEnv_def
      emptyRepository_def exampleContext_def exampleQueue_def exampleJob_def extractQueueAndJobContexts_def
      addJobSchedulingContext_def lru_PeekOrAdd_def lru_Peek_def lru_Add_def addQueueSchedulingContexts_def
      storeByQueueAndExecutor_def addSchedulingContext_def addExecutorId_def IsZero_def
      ResourceList_IsZero_def Let_def trimAscii_def asciiSpace_def)

lemma exampleEnv_parses:
  "ulid_Parse exampleEnv (TrimSpace exampleEnv '' 01h3w6kzvm4ew0pq5t8fbmd4p0 '')"
  "ulid_Parse exampleEnv (TrimSpace exampleEnv '' 01h3w6kzvm4ew0pq5t8fbmd4nz '')"
  "\<not> ulid_Parse exampleEnv (TrimSpace exampleEnv '' not a job id '')"
  by (simp_all add: exampleEnv_def trimAscii_def asciiSpace_def)

text \<open>
  Claim C9.  For a queue name and a valid job id for which the repository holds no
  stored context, \<open>GetQueueReport\<close>, \<open>GetJobReport\<close> and \<open>GetSchedulingReport\<close> (filtered
  by that queue or that job) return a report and no error, and the report reads as absent
  for every executor the repository knows: \<open>none\<close> for each of the three attempts, and
  \<open>no recent attempt\<close> for the job.
\<close>

theorem reports_of_missing_data:
  assumes "noStoredQueueContexts repo (TrimSpace e queueName)"
    and "ulid_Parse e (TrimSpace e jobId)"
    and "noStoredJobContexts repo (TrimSpace e jobId)"
  shows "GetQueueReport e repo \<lparr>qrr_QueueName = queueName, qrr_Verbosity = verbosity\<rparr>
           = Inr (noAttemptsText e (sortedExecutorIdsP repo))
       \<and> GetJobReport e repo \<lparr>jrr_JobId = jobId\<rparr>
           = (Inr (noRecentAttemptText e (sortedExecutorIdsP repo)), repo)
       \<and> GetSchedulingReport e repo \<lparr>srr_Filter = MostRecentForQueue queueName, srr_Verbosity = verbosity\<rparr>
           = Inr (noAttemptsText e (sortedExecutorIdsP repo))
       \<and> GetSchedulingReport e repo \<lparr>srr_Filter = MostRecentForJob jobId, srr_Verbosity = verbosity\<rparr>
           = Inr (noAttemptsText e (sortedExecutorIdsP repo))"
  using assms
  by (simp add: GetQueueReport_def GetJobReport_def GetSchedulingReport_def
      getQueueReportString_absent getSchedulingReportForQueue_absent getSchedulingReportForJob_absent
      getJobReportString_absent noStoredJobContexts_def)

theorem reports_of_missing_data_witness:
  "noStoredQueueContexts exampleRepository (TrimSpace exampleEnv '' B '')
   \<and> ulid_Parse exampleEnv (TrimSpace exampleEnv '' 01h3w6kzvm4ew0pq5t8fbmd4p0 '')
   \<and> noStoredJobContexts exampleRepository (TrimSpace exampleEnv '' 01h3w6kzvm4ew0pq5t8fbmd4p0 '')
   \<and> GetQueueReport exampleEnv exampleRepository \<lparr>qrr_QueueName = '' B '', qrr_Verbosity = 0\<rparr>
         = Inr (noAttemptsText exampleEnv [''executor''])
   \<and> GetJobReport exampleEnv exampleRepository \<lparr>jrr_JobId = '' 01h3w6kzvm4ew0pq5t8fbmd4p0 ''\<rparr>
         = (Inr (noRecentAttemptText exampleEnv [''executor'']), exampleRepository)
   \<and> GetSchedulingReport exampleEnv exampleRepository
         \<lparr>srr_Filter = MostRecentForQueue '' B '', srr_Verbosity = 0\<rparr>
         = Inr (noAttemptsText exampleEnv [''executor''])
   \<and> GetSchedulingReport exampleEnv exampleRepository
         \<lparr>srr_Filter = MostRecentForJob '' 01h3w6kzvm4ew0pq5t8fbmd4p0 '', srr_Verbosity = 0\<rparr>
         = Inr (noAttemptsText exampleEnv [''executor''])"
  using reports_of_missing_data [OF exampleRepository_no_queue_B exampleEnv_parses(1)
      exampleRepository_no_other_job, of 0]
    exampleRepository_no_queue_B exampleEnv_parses(1) exampleRepository_no_other_job
  by (simp add: exampleRepository_sortedExecutorIds)

text \<open>
  Claim C10.  \<open>GetJobReport\<close> returns an \<open>InvalidArgument\<close> error and no report when the
  trimmed job id of the request does not parse as a ULID.  When it parses, the call
  returns a report and no error, also when the cache holds no context for the job: the
  report then reads \<open>no recent attempt\<close> for every executor.
\<close>

theorem GetJobReport_validates_job_id:
  "(\<not> ulid_Parse e (TrimSpace e (jrr_JobId request)) \<longrightarrow>
      GetJobReport e repo request
        = (Inl (ErrInvalidArgument ''jobId'' (jrr_JobId request)
                  (jrr_JobId request @ '' is not a valid jobId'')), repo))
   \<and> (ulid_Parse e (TrimSpace e (jrr_JobId request)) \<longrightarrow>
        (\<exists>report. fst (GetJobReport e repo request) = Inr report)
        \<and> (lru_Peek (TrimSpace e (jrr_JobId request)) (mostRecentJobSchedulingContextByExecutorByJobId repo) = None \<longrightarrow>
             GetJobReport e repo request = (Inr (noRecentAttemptText e (sortedExecutorIdsP repo)), repo)))"
  by (auto simp add: GetJobReport_def getJobReportString_absent split: prod.splits)

theorem GetJobReport_validates_job_id_witness:
  "\<not> ulid_Parse exampleEnv (TrimSpace exampleEnv '' not a job id '')
   \<and> GetJobReport exampleEnv exampleRepository \<lparr>jrr_JobId = '' not a job id ''\<rparr>
         = (Inl (ErrInvalidArgument ''jobId'' '' not a job id '' '' not a job id  is not a valid jobId''),
            exampleRepository)
   \<and> ulid_Parse exampleEnv (TrimSpace exampleEnv '' 01h3w6kzvm4ew0pq5t8fbmd4nz '')
   \<and> (\<exists>report. fst (GetJobReport exampleEnv exampleRepository \<lparr>jrr_JobId = '' 01h3w6kzvm4ew0pq5t8fbmd4nz ''\<rparr>)
         = Inr report)
   \<and> ulid_Parse exampleEnv (TrimSpace exampleEnv '' 01h3w6kzvm4ew0pq5t8fbmd4p0 '')
   \<and> GetJobReport exampleEnv exampleRepository \<lparr>jrr_JobId = '' 01h3w6kzvm4ew0pq5t8fbmd4p0 ''\<rparr>
         = (Inr (noRecentAttemptText exampleEnv [''executor'']), exampleRepository)"
proof -
  have absent: "lru_Peek (TrimSpace exampleEnv '' 01h3w6kzvm4ew0pq5t8fbmd4p0 '')
                  (mostRecentJobSchedulingContextByExecutorByJobId exampleRepository) = None"
    using exampleRepository_no_other_job by (simp add: noStoredJobContexts_def)
  show ?thesis
    using GetJobReport_validates_job_id [of exampleEnv "\<lparr>jrr_JobId = '' not a job id ''\<rparr>" exampleRepository]
      GetJobReport_validates_job_id [of exampleEnv "\<lparr>jrr_JobId = '' 01h3w6kzvm4ew0pq5t8fbmd4nz ''\<rparr>" exampleRepository]
      GetJobReport_validates_job_id [of exampleEnv "\<lparr>jrr_JobId = '' 01h3w6kzvm4ew0pq5t8fbmd4p0 ''\<rparr>" exampleRepository]
      exampleEnv_parses absent
    by (simp add: exampleRepository_sortedExecutorIds)
qed

section \<open>The claim about the order of the stores\<close>

text \<open>
  Claim C5, as stated, fails: the job contexts are kept in a cache of bounded size.  In
  a repository made for one job context, adding a scheduling context that holds two jobs
  stores the first job context, then the second, which evicts the first; the scheduling
  context is stored after that.  The final state is reachable, the scheduling context is
  stored in it, and the job context of its first job is not found.
\<close>

theorem evicted_job_context_counterexample:
  "reachable UNIV (crowdedRepository, None)
   \<and> exampleContext [''01h3w6kzvm4ew0pq5t8fbmd4nz'', ''01h3w6kzvm4ew0pq5t8fbmd4p0''] \<in> storedContexts crowdedRepository
   \<and> exampleJob ''01h3w6kzvm4ew0pq5t8fbmd4nz''
        \<in> jobChildren (exampleContext [''01h3w6kzvm4ew0pq5t8fbmd4nz'', ''01h3w6kzvm4ew0pq5t8fbmd4p0''])
   \<and> \<not> jobFound crowdedRepository (exampleJob ''01h3w6kzvm4ew0pq5t8fbmd4nz'')"
proof (intro conjI)
  show "reachable UNIV (crowdedRepository, None)"
    unfolding crowdedRepository_def
    by (rule example_reachable [OF _ _ emptyRepository_New(1)]) simp_all
  show "exampleContext [''01h3w6kzvm4ew0pq5t8fbmd4nz'', ''01h3w6kzvm4ew0pq5t8fbmd4p0''] \<in> storedContexts crowdedRepository"
    by (simp add: storedContexts_def crowdedRepository_def example_defs)
  show "exampleJob ''01h3w6kzvm4ew0pq5t8fbmd4nz''
        \<in> jobChildren (exampleContext [''01h3w6kzvm4ew0pq5t8fbmd4nz'', ''01h3w6kzvm4ew0pq5t8fbmd4p0''])"
    by (simp add: jobChildren_def jobEntries_def exampleContext_def exampleQueue_def)
  show "\<not> jobFound crowdedRepository (exampleJob ''01h3w6kzvm4ew0pq5t8fbmd4nz'')"
    by (simp add: jobFound_def crowdedRepository_def hasKey_def example_defs)
qed

text \<open>
  Claim C5, amended.  \<open>AddSchedulingContext\<close> stores the job contexts, then the queue
  contexts, then the scheduling context.  In every interleaving of readers with writers
  that add well-formed contexts, a reader that has loaded a stored scheduling context
  finds, then and at any later time, an entry for each queue context the scheduling
  context refers to; and it finds an entry for each job context it refers to as long as
  the job ids the writers store lie in a set no larger than the cache, so that the cache
  never evicts.
\<close>

theorem children_of_observed_context_found:
  assumes "reachable J s" and "(step J)\<^sup>*\<^sup>* s s'" and "sctx \<in> storedContexts (fst s)"
  shows "(\<forall>qctx \<in> queueChildren sctx. queueFound (fst s') qctx)
       \<and> (finite J \<and> card J \<le> lru_size (mostRecentJobSchedulingContextByExecutorByJobId (fst s))
            \<longrightarrow> (\<forall>jctx \<in> jobChildren sctx. jobFound (fst s') jctx))"
proof (intro conjI impI ballI)
  fix qctx assume "qctx \<in> queueChildren sctx"
  with inv_q_reachable [OF assms(1)] assms(3) have "queueFound (fst s) qctx"
    by (simp add: inv_q_def)
  with assms(2) show "queueFound (fst s') qctx" by (rule queueFound_steps)
next
  fix jctx
  assume bound: "finite J \<and> card J \<le> lru_size (mostRecentJobSchedulingContextByExecutorByJobId (fst s))"
    and child: "jctx \<in> jobChildren sctx"
  from bound have j: "inv_j J s" by (simp add: inv_j_reachable [OF assms(1)])
  with assms(3) child have "jobFound (fst s) jctx" by (simp add: inv_j_def)
  from jobFound_steps [OF assms(2) inv_q_reachable [OF assms(1)] j this]
  show "jobFound (fst s') jctx" by simp
qed

theorem children_of_observed_context_found_witness:
  "reachable {''01h3w6kzvm4ew0pq5t8fbmd4nz''} (exampleRepository, None)
   \<and> (step {''01h3w6kzvm4ew0pq5t8fbmd4nz''})\<^sup>*\<^sup>* (exampleRepository, None)
        (snd (GetMostRecentJobSchedulingContextByExecutor exampleRepository ''01h3w6kzvm4ew0pq5t8fbmd4nz''), None)
   \<and> exampleContext [''01h3w6kzvm4ew0pq5t8fbmd4nz''] \<in> storedContexts exampleRepository
   \<and> finite {''01h3w6kzvm4ew0pq5t8fbmd4nz''}
   \<and> card {''01h3w6kzvm4ew0pq5t8fbmd4nz''} \<le> lru_size (mostRecentJobSchedulingContextByExecutorByJobId exampleRepository)
   \<and> queueFound (snd (GetMostRecentJobSchedulingContextByExecutor exampleRepository ''01h3w6kzvm4ew0pq5t8fbmd4nz''))
        (exampleQueue ''A'' [''01h3w6kzvm4ew0pq5t8fbmd4nz''])
   \<and> jobFound (snd (GetMostRecentJobSchedulingContextByExecutor exampleRepository ''01h3w6kzvm4ew0pq5t8fbmd4nz''))
        (exampleJob ''01h3w6kzvm4ew0pq5t8fbmd4nz'')"
proof -
  let ?J = "{''01h3w6kzvm4ew0pq5t8fbmd4nz''}"
  let ?sctx = "exampleContext [''01h3w6kzvm4ew0pq5t8fbmd4nz'']"
  let ?s' = "(snd (GetMostRecentJobSchedulingContextByExecutor exampleRepository ''01h3w6kzvm4ew0pq5t8fbmd4nz''), None :: writer option)"
  have r: "reachable ?J (exampleRepository, None)"
    unfolding exampleRepository_def
    by (rule example_reachable [OF _ _ emptyRepository_New(2)]) simp_all
  have st: "(step ?J)\<^sup>*\<^sup>* (exampleRepository, None) ?s'"
    by (rule r_into_rtranclp) (rule step.ReaderGet)
  have stored: "?sctx \<in> storedContexts exampleRepository"
    by (simp add: storedContexts_def exampleRepository_def example_defs)
  have size: "card ?J \<le> lru_size (mostRecentJobSchedulingContextByExecutorByJobId exampleRepository)"
    by (simp add: exampleRepository_def example_defs)
  have q: "exampleQueue ''A'' [''01h3w6kzvm4ew0pq5t8fbmd4nz''] \<in> queueChildren ?sctx"
    by (simp add: queueChildren_def exampleContext_def)
  have j: "exampleJob ''01h3w6kzvm4ew0pq5t8fbmd4nz'' \<in> jobChildren ?sctx"
    by (simp add: jobChildren_def jobEntries_def exampleContext_def exampleQueue_def)
  from children_of_observed_context_found [OF r st, of ?sctx] stored size q j r st
  show ?thesis by simp
qed

end
